theory Spec2Isabelle
  imports Complex_Main "HOL-Library.Word" "HOL-Library.List_Lexorder" "HOL-Library.Product_Lexorder"
begin

section \<open>Python values used by the tokenizer scripts\<close>

text \<open>
  A Python \<open>bytes\<close> object is a list of 8-bit words, a Python \<open>str\<close> is a list of Unicode
  code points (natural numbers), a Python \<open>int\<close> is an \<open>int\<close>. A \<open>dict\<close> is an
  association list in insertion order whose keys are pairwise distinct.
\<close>

type_synonym byte = "8 word"
type_synonym bytes = "byte list"
type_synonym ustr = "nat list"
type_synonym ('k, 'v) dict = "('k \<times> 'v) list"

datatype py_error =
    ValueError
  | TypeError
  | AttributeError
  | FileNotFoundError
  | PermissionError
  | JSONDecodeError
  | ConfigurationError

text \<open>An ASCII literal of the source, as a Python \<open>str\<close>.\<close>

definition ascii :: "string \<Rightarrow> ustr" where
  "ascii s = map of_char s"

subsection \<open>Whitespace, \<open>str.strip\<close> and \<open>str.split\<close>\<close>

text \<open>The code points for which \<open>str.isspace\<close> holds.\<close>

definition isspace :: "nat \<Rightarrow> bool" where
  "isspace c \<longleftrightarrow>
     (9 \<le> c \<and> c \<le> 13) \<or> (28 \<le> c \<and> c \<le> 32) \<or> c = 133 \<or> c = 160 \<or> c = 5760 \<or>
     (8192 \<le> c \<and> c \<le> 8202) \<or> c = 8232 \<or> c = 8233 \<or> c = 8239 \<or> c = 8287 \<or> c = 12288"

definition py_strip :: "ustr \<Rightarrow> ustr" where
  "py_strip s = rev (dropWhile isspace (rev (dropWhile isspace s)))"

text \<open>\<open>s.split()\<close> with no argument: the maximal runs of non-whitespace, in order.\<close>

fun py_split_acc :: "ustr \<Rightarrow> ustr \<Rightarrow> ustr list" where
  "py_split_acc cur [] = (if cur = [] then [] else [cur])"
| "py_split_acc cur (c # cs) =
     (if isspace c then (if cur = [] then py_split_acc [] cs else cur # py_split_acc [] cs)
      else py_split_acc (cur @ [c]) cs)"

definition py_split :: "ustr \<Rightarrow> ustr list" where
  "py_split s = py_split_acc [] s"

subsection \<open>\<open>str(int)\<close> and \<open>int(str)\<close>\<close>

fun digits :: "nat \<Rightarrow> ustr" where
  "digits n = (if n < 10 then [48 + n] else digits (n div 10) @ [48 + n mod 10])"

declare digits.simps [simp del]

definition str_int :: "int \<Rightarrow> ustr" where
  "str_int i = (if i < 0 then 45 # digits (nat (- i)) else digits (nat i))"

text \<open>
  \<open>int(s)\<close> for a string: surrounding whitespace is stripped, then an optional sign and
  a non-empty run of ASCII decimal digits is read; anything else is a \<open>ValueError\<close>.
  (Python also accepts single underscores between digits and non-ASCII decimal digits;
  \<open>str\<close> never produces either, and they are rejected here.)
\<close>

fun parse_digits :: "nat \<Rightarrow> ustr \<Rightarrow> nat option" where
  "parse_digits acc [] = Some acc"
| "parse_digits acc (c # cs) =
     (if 48 \<le> c \<and> c \<le> 57 then parse_digits (10 * acc + (c - 48)) cs else None)"

definition parse_nat :: "ustr \<Rightarrow> py_error + nat" where
  "parse_nat s = (if s = [] then Inl ValueError
                  else case parse_digits 0 s of None \<Rightarrow> Inl ValueError | Some n \<Rightarrow> Inr n)"

definition py_int :: "ustr \<Rightarrow> py_error + int" where
  "py_int s =
     (case py_strip s of
        [] \<Rightarrow> Inl ValueError
      | c # r \<Rightarrow>
          if c = 45 then (case parse_nat r of Inl e \<Rightarrow> Inl e | Inr n \<Rightarrow> Inr (- int n))
          else if c = 43 then (case parse_nat r of Inl e \<Rightarrow> Inl e | Inr n \<Rightarrow> Inr (int n))
          else (case parse_nat (c # r) of Inl e \<Rightarrow> Inl e | Inr n \<Rightarrow> Inr (int n)))"

subsection \<open>\<open>bytes.hex\<close> and \<open>bytes.fromhex\<close>\<close>

definition hex_digit :: "nat \<Rightarrow> nat" where
  "hex_digit n = (if n < 10 then 48 + n else 87 + n)"

definition hex_byte :: "byte \<Rightarrow> ustr" where
  "hex_byte b = [hex_digit (unat b div 16), hex_digit (unat b mod 16)]"

definition bytes_hex :: "bytes \<Rightarrow> ustr" where
  "bytes_hex bs = concat (map hex_byte bs)"

definition hex_value :: "nat \<Rightarrow> nat option" where
  "hex_value c =
     (if 48 \<le> c \<and> c \<le> 57 then Some (c - 48)
      else if 97 \<le> c \<and> c \<le> 102 then Some (c - 87)
      else if 65 \<le> c \<and> c \<le> 70 then Some (c - 55)
      else None)"

definition ascii_space :: "nat \<Rightarrow> bool" where
  "ascii_space c \<longleftrightarrow> (9 \<le> c \<and> c \<le> 13) \<or> c = 32"

text \<open>
  \<open>bytes.fromhex\<close>: two hexadecimal digits per byte, ASCII whitespace skipped between
  bytes, \<open>ValueError\<close> on any other character or on a lone digit.
\<close>

fun fromhex :: "ustr \<Rightarrow> py_error + bytes" where
  "fromhex [] = Inr []"
| "fromhex [c] = (if ascii_space c then Inr [] else Inl ValueError)"
| "fromhex (c # d # cs) =
     (if ascii_space c then fromhex (d # cs)
      else case (hex_value c, hex_value d) of
             (Some h, Some l) \<Rightarrow>
               (case fromhex cs of Inl e \<Rightarrow> Inl e | Inr bs \<Rightarrow> Inr (word_of_nat (16 * h + l) # bs))
           | _ \<Rightarrow> Inl ValueError)"

subsection \<open>Dictionaries\<close>

text \<open>\<open>d[k] = v\<close>: an existing key keeps its position, a new key goes last.\<close>

fun dict_set :: "'k \<Rightarrow> 'v \<Rightarrow> ('k, 'v) dict \<Rightarrow> ('k, 'v) dict" where
  "dict_set k v [] = [(k, v)]"
| "dict_set k v ((k', v') # d) = (if k = k' then (k, v) # d else (k', v') # dict_set k v d)"

section \<open>Files\<close>

text \<open>
  A JSON document (numbers with a fraction are left out), and a file: a text written
  with \<open>write\<close>, a file holding the JSON text of a document written with \<open>json.dump\<close>,
  or a file that exists and cannot be opened for reading. The file system maps a path
  to the file stored there. \<open>json.dump\<close> and \<open>json.load\<close> are library functions: they
  are not re-implemented at the level of characters, a \<open>Json\<close> file stands for the
  text \<open>json.dump\<close> writes and \<open>json.load\<close> reads back. Directories, permissions to write and
  symbolic links are not modelled.
\<close>

datatype json =
    JNull
  | JBool bool
  | JInt int
  | JStr ustr
  | JArr "json list"
  | JObj "(ustr \<times> json) list"

datatype stored_file = Text ustr | Json json | Unreadable

type_synonym filesystem = "ustr \<rightharpoonup> stored_file"

text \<open>\<open>Path(dir) / name\<close> for a relative \<open>name\<close>.\<close>

definition path_join :: "ustr \<Rightarrow> ustr \<Rightarrow> ustr" where
  "path_join dir name = dir @ ascii ''/'' @ name"

text \<open>
  Iterating over a file opened in text mode: \<open>\r\n\<close> and \<open>\r\<close> are read as \<open>\n\<close>, and
  every line keeps its \<open>\n\<close>; a last line without one is still a line.
\<close>

fun universal_newlines :: "ustr \<Rightarrow> ustr" where
  "universal_newlines [] = []"
| "universal_newlines [c] = (if c = 13 then [10] else [c])"
| "universal_newlines (c # d # cs) =
     (if c = 13 then (if d = 10 then 10 # universal_newlines cs
                      else 10 # universal_newlines (d # cs))
      else c # universal_newlines (d # cs))"

fun readlines_acc :: "ustr \<Rightarrow> ustr \<Rightarrow> ustr list" where
  "readlines_acc cur [] = (if cur = [] then [] else [cur])"
| "readlines_acc cur (c # cs) =
     (if c = 10 then (cur @ [c]) # readlines_acc [] cs else readlines_acc (cur @ [c]) cs)"

definition file_lines :: "ustr \<Rightarrow> ustr list" where
  "file_lines txt = readlines_acc [] (universal_newlines txt)"

section \<open>\<open>save_vocab_and_merges\<close> (bpe\_training\_utils.py)\<close>

text \<open>
  \<open>gpt2_bytes_to_unicode\<close> is imported from \<open>tests/common.py\<close>, which is not among the
  sources, so the table \<open>byte_encoder\<close> is a parameter: a code point for every byte
  value. \<open>''.join(byte_encoder[b] for b in token_bytes)\<close> is then the list of the code
  points of the bytes.
\<close>

definition token_str :: "(byte \<Rightarrow> nat) \<Rightarrow> bytes \<Rightarrow> ustr" where
  "token_str byte_encoder token_bytes = map byte_encoder token_bytes"

text \<open>The loop that fills \<open>vocab_gpt2\<close>.\<close>

definition vocab_gpt2_of :: "(byte \<Rightarrow> nat) \<Rightarrow> (int, bytes) dict \<Rightarrow> (ustr, ustr) dict" where
  "vocab_gpt2_of byte_encoder vocab =
     fold (\<lambda>(token_id, token_bytes) vocab_gpt2.
             dict_set (str_int token_id) (token_str byte_encoder token_bytes) vocab_gpt2)
          vocab []"

text \<open>The writes to \<open>merges.txt\<close>: the header, then one \<open>write\<close> per merge.\<close>

definition merges_header :: ustr where
  "merges_header = ascii ''#version: 0.2'' @ [10]"

definition merges_txt_of :: "(byte \<Rightarrow> nat) \<Rightarrow> (bytes \<times> bytes) list \<Rightarrow> ustr" where
  "merges_txt_of byte_encoder merges =
     fold (\<lambda>(token1, token2) f.
             f @ (token_str byte_encoder token1 @ ascii '' '' @ token_str byte_encoder token2 @ [10]))
          merges merges_header"

text \<open>\<open>{k: v.hex() for k, v in vocab.items()}\<close>.\<close>

definition vocab_serializable_of :: "(int, bytes) dict \<Rightarrow> (int, ustr) dict" where
  "vocab_serializable_of vocab =
     fold (\<lambda>(k, v) d. dict_set k (bytes_hex v) d) vocab []"

definition raw_merges_txt_of :: "(bytes \<times> bytes) list \<Rightarrow> ustr" where
  "raw_merges_txt_of merges =
     fold (\<lambda>(token1, token2) f. f @ (bytes_hex token1 @ ascii '' '' @ bytes_hex token2 @ [10]))
          merges []"

text \<open>
  \<open>json.dump\<close> of a dictionary of strings; with \<open>int\<close> keys, JSON has only string keys and
  \<open>json.dump\<close> writes each key as its decimal numeral.
\<close>

definition json_of_str_dict :: "(ustr, ustr) dict \<Rightarrow> json" where
  "json_of_str_dict d = JObj (map (\<lambda>(k, v). (k, JStr v)) d)"

definition json_of_int_dict :: "(int, ustr) dict \<Rightarrow> json" where
  "json_of_int_dict d = JObj (map (\<lambda>(k, v). (str_int k, JStr v)) d)"

definition save_vocab_and_merges ::
  "(byte \<Rightarrow> nat) \<Rightarrow> (int, bytes) dict \<Rightarrow> (bytes \<times> bytes) list \<Rightarrow> ustr \<Rightarrow> ustr \<Rightarrow>
   filesystem \<Rightarrow> filesystem" where
  "save_vocab_and_merges byte_encoder vocab merges output_dir name_prefix fs =
     (let vocab_gpt2 = vocab_gpt2_of byte_encoder vocab;
          vocab_path = path_join output_dir (name_prefix @ ascii ''vocab.json'');
          fs1 = fs(vocab_path \<mapsto> Json (json_of_str_dict vocab_gpt2));
          merges_path = path_join output_dir (name_prefix @ ascii ''merges.txt'');
          fs2 = fs1(merges_path \<mapsto> Text (merges_txt_of byte_encoder merges));
          raw_vocab_path = path_join output_dir (name_prefix @ ascii ''vocab_raw.json'');
          fs3 = fs2(raw_vocab_path \<mapsto> Json (json_of_int_dict (vocab_serializable_of vocab)));
          raw_merges_path = path_join output_dir (name_prefix @ ascii ''merges_raw.txt'')
      in fs3(raw_merges_path \<mapsto> Text (raw_merges_txt_of merges)))"

section \<open>\<open>load_tokenizer\<close> (compare\_tokenizers.py)\<close>

text \<open>
  \<open>json.load\<close> of the file at a path. A file written with \<open>write\<close> is not parsed as
  JSON here: \<open>json.load\<close> on it is a \<open>JSONDecodeError\<close>.
\<close>

definition json_load :: "filesystem \<Rightarrow> ustr \<Rightarrow> py_error + json" where
  "json_load fs path =
     (case fs path of
        None \<Rightarrow> Inl FileNotFoundError
      | Some Unreadable \<Rightarrow> Inl PermissionError
      | Some (Text t) \<Rightarrow> Inl JSONDecodeError
      | Some (Json j) \<Rightarrow> Inr j)"

text \<open>The dictionary \<open>json.load\<close> builds from an object: a repeated key keeps the last value.\<close>

definition dict_of_object :: "(ustr \<times> json) list \<Rightarrow> (ustr, json) dict" where
  "dict_of_object kvs = fold (\<lambda>(k, v) d. dict_set k v d) kvs []"

text \<open>\<open>{int(k): bytes.fromhex(v) for k, v in vocab_hex.items()}\<close>.\<close>

fun load_vocab_items :: "(ustr, json) dict \<Rightarrow> (int, bytes) dict \<Rightarrow> py_error + (int, bytes) dict" where
  "load_vocab_items [] vocab = Inr vocab"
| "load_vocab_items ((k, v) # kvs) vocab =
     (case py_int k of
        Inl e \<Rightarrow> Inl e
      | Inr i \<Rightarrow>
          (case v of
             JStr h \<Rightarrow>
               (case fromhex h of
                  Inl e \<Rightarrow> Inl e
                | Inr b \<Rightarrow> load_vocab_items kvs (dict_set i b vocab))
           | _ \<Rightarrow> Inl TypeError))"

text \<open>The loop over the lines of \<open>merges_raw.txt\<close>.\<close>

fun load_merges_lines :: "ustr list \<Rightarrow> (bytes \<times> bytes) list \<Rightarrow> py_error + (bytes \<times> bytes) list" where
  "load_merges_lines [] merges = Inr merges"
| "load_merges_lines (line # ls) merges =
     (if py_strip line \<noteq> [] then
        (case py_split (py_strip line) of
           [token1_hex, token2_hex] \<Rightarrow>
             (case fromhex token1_hex of
                Inl e \<Rightarrow> Inl e
              | Inr t1 \<Rightarrow>
                  (case fromhex token2_hex of
                     Inl e \<Rightarrow> Inl e
                   | Inr t2 \<Rightarrow> load_merges_lines ls (merges @ [(t1, t2)])))
         | _ \<Rightarrow> Inl ValueError)
      else load_merges_lines ls merges)"

text \<open>
  A file written by \<open>json.dump\<close> starts with a bracket, a quote, a digit, a sign or a
  letter and is not a pair of hexadecimal strings: the loop over its lines ends in a
  \<open>ValueError\<close>, from the unpacking or from \<open>bytes.fromhex\<close>.
\<close>

definition load_tokenizer ::
  "ustr \<Rightarrow> ustr \<Rightarrow> filesystem \<Rightarrow> py_error + ((int, bytes) dict \<times> (bytes \<times> bytes) list)" where
  "load_tokenizer output_dir prefix fs =
     (case json_load fs (path_join output_dir (prefix @ ascii ''vocab_raw.json'')) of
        Inl e \<Rightarrow> Inl e
      | Inr vocab_hex \<Rightarrow>
          (case vocab_hex of
             JObj kvs \<Rightarrow>
               (case load_vocab_items (dict_of_object kvs) [] of
                  Inl e \<Rightarrow> Inl e
                | Inr vocab \<Rightarrow>
                    (case fs (path_join output_dir (prefix @ ascii ''merges_raw.txt'')) of
                       None \<Rightarrow> Inl FileNotFoundError
                     | Some Unreadable \<Rightarrow> Inl PermissionError
                     | Some (Json j) \<Rightarrow> Inl ValueError
                     | Some (Text t) \<Rightarrow>
                         (case load_merges_lines (file_lines t) [] of
                            Inl e \<Rightarrow> Inl e
                          | Inr merges \<Rightarrow> Inr (vocab, merges))))
           | _ \<Rightarrow> Inl AttributeError))"

section \<open>\<open>fix_vocab_json\<close> (fix\_vocab\_json.py)\<close>

text \<open>The loop that rebuilds \<open>vocab_gpt2\<close> from the raw vocabulary.\<close>

fun fix_vocab_items ::
  "(byte \<Rightarrow> nat) \<Rightarrow> (ustr, json) dict \<Rightarrow> (ustr, ustr) dict \<Rightarrow> py_error + (ustr, ustr) dict" where
  "fix_vocab_items byte_encoder [] vocab_gpt2 = Inr vocab_gpt2"
| "fix_vocab_items byte_encoder ((token_id_str, hex_bytes) # kvs) vocab_gpt2 =
     (case hex_bytes of
        JStr h \<Rightarrow>
          (case fromhex h of
             Inl e \<Rightarrow> Inl e
           | Inr token_bytes \<Rightarrow>
               fix_vocab_items byte_encoder kvs
                 (dict_set token_id_str (token_str byte_encoder token_bytes) vocab_gpt2))
      | _ \<Rightarrow> Inl TypeError)"

text \<open>
  The closing check \<open>min(int(k) for k in vocab_gpt2.keys())\<close> (and \<open>max\<close>): a
  \<open>ValueError\<close> for an empty dictionary or a key that is no numeral, raised after the
  file has been written.
\<close>

fun int_keys :: "ustr list \<Rightarrow> py_error + int list" where
  "int_keys [] = Inr []"
| "int_keys (k # ks) =
     (case py_int k of
        Inl e \<Rightarrow> Inl e
      | Inr i \<Rightarrow> (case int_keys ks of Inl e \<Rightarrow> Inl e | Inr is \<Rightarrow> Inr (i # is)))"

definition verify_ids :: "(ustr, ustr) dict \<Rightarrow> py_error option" where
  "verify_ids vocab_gpt2 =
     (case int_keys (map fst vocab_gpt2) of
        Inl e \<Rightarrow> Some e
      | Inr is \<Rightarrow> (if is = [] then Some ValueError else None))"

text \<open>The result is the exception raised, if any, and the file system left behind.\<close>

definition fix_vocab_json ::
  "(byte \<Rightarrow> nat) \<Rightarrow> ustr \<Rightarrow> ustr \<Rightarrow> filesystem \<Rightarrow> py_error option \<times> filesystem" where
  "fix_vocab_json byte_encoder tokenizer_dir name_prefix fs =
     (case json_load fs (path_join tokenizer_dir (name_prefix @ ascii ''_vocab_raw.json'')) of
        Inl e \<Rightarrow> (Some e, fs)
      | Inr vocab_raw \<Rightarrow>
          (case vocab_raw of
             JObj kvs \<Rightarrow>
               (case fix_vocab_items byte_encoder (dict_of_object kvs) [] of
                  Inl e \<Rightarrow> (Some e, fs)
                | Inr vocab_gpt2 \<Rightarrow>
                    (let vocab_path = path_join tokenizer_dir (name_prefix @ ascii ''_vocab.json'');
                         fs' = fs(vocab_path \<mapsto> Json (json_of_str_dict vocab_gpt2))
                     in (verify_ids vocab_gpt2, fs')))
           | JStr s \<Rightarrow> (Some AttributeError, fs)
           | JArr xs \<Rightarrow> (Some AttributeError, fs)
           | _ \<Rightarrow> (Some TypeError, fs)))"

section \<open>The byte-to-unicode table\<close>

text \<open>
  Modelled from the spec: \<open>gpt2_bytes_to_unicode\<close> is defined in \<open>tests/common.py\<close>, which is
  not among the sources. The specification asks for a fixed table that gives every byte
  value a printable code point of its own. The table below is the GPT-2 table the function
  is named after: the byte values that are printable and not blank in Latin-1 (33 to 126,
  161 to 172 and 174 to 255) keep their value as code point, and the 68 others are given
  the code points 256, 257, ... in increasing order of the byte value.
\<close>

definition gpt2_bytes_to_unicode :: "byte \<Rightarrow> nat" where
  "gpt2_bytes_to_unicode b =
     (let n = unat b in
      if n \<le> 32 then 256 + n
      else if 127 \<le> n \<and> n \<le> 160 then 256 + 33 + (n - 127)
      else if n = 173 then 256 + 67
      else n)"

section \<open>\<open>analyze_vocab\<close> (bpe\_training\_utils.py)\<close>

text \<open>
  \<open>bytes.decode('utf-8')\<close>: the strict decoder. A continuation byte is \<open>0x80\<close> to \<open>0xBF\<close>;
  overlong forms, surrogates and code points above \<open>0x10FFFF\<close> are rejected. \<open>None\<close> stands
  for \<open>UnicodeDecodeError\<close>.
\<close>

definition continuation :: "byte \<Rightarrow> bool" where
  "continuation b \<longleftrightarrow> 128 \<le> unat b \<and> unat b \<le> 191"

fun utf8_decode :: "bytes \<Rightarrow> ustr option" where
  "utf8_decode [] = Some []"
| "utf8_decode [b0] = (if unat b0 < 128 then Some [unat b0] else None)"
| "utf8_decode [b0, b1] =
     (if unat b0 < 128 then map_option ((#) (unat b0)) (utf8_decode [b1])
      else if 194 \<le> unat b0 \<and> unat b0 \<le> 223 \<and> continuation b1
        then Some [(unat b0 - 192) * 64 + (unat b1 - 128)]
      else None)"
| "utf8_decode [b0, b1, b2] =
     (if unat b0 < 128 then map_option ((#) (unat b0)) (utf8_decode [b1, b2])
      else if 194 \<le> unat b0 \<and> unat b0 \<le> 223 \<and> continuation b1
        then map_option ((#) ((unat b0 - 192) * 64 + (unat b1 - 128))) (utf8_decode [b2])
      else if 224 \<le> unat b0 \<and> unat b0 \<le> 239 \<and> continuation b1 \<and> continuation b2
              \<and> (unat b0 = 224 \<longrightarrow> 160 \<le> unat b1) \<and> (unat b0 = 237 \<longrightarrow> unat b1 \<le> 159)
        then Some [(unat b0 - 224) * 4096 + (unat b1 - 128) * 64 + (unat b2 - 128)]
      else None)"
| "utf8_decode (b0 # b1 # b2 # b3 # rest) =
     (if unat b0 < 128 then map_option ((#) (unat b0)) (utf8_decode (b1 # b2 # b3 # rest))
      else if 194 \<le> unat b0 \<and> unat b0 \<le> 223 \<and> continuation b1
        then map_option ((#) ((unat b0 - 192) * 64 + (unat b1 - 128))) (utf8_decode (b2 # b3 # rest))
      else if 224 \<le> unat b0 \<and> unat b0 \<le> 239 \<and> continuation b1 \<and> continuation b2
              \<and> (unat b0 = 224 \<longrightarrow> 160 \<le> unat b1) \<and> (unat b0 = 237 \<longrightarrow> unat b1 \<le> 159)
        then map_option ((#) ((unat b0 - 224) * 4096 + (unat b1 - 128) * 64 + (unat b2 - 128)))
               (utf8_decode (b3 # rest))
      else if 240 \<le> unat b0 \<and> unat b0 \<le> 244 \<and> continuation b1 \<and> continuation b2 \<and> continuation b3
              \<and> (unat b0 = 240 \<longrightarrow> 144 \<le> unat b1) \<and> (unat b0 = 244 \<longrightarrow> unat b1 \<le> 143)
        then map_option ((#) ((unat b0 - 240) * 262144 + (unat b1 - 128) * 4096
                              + (unat b2 - 128) * 64 + (unat b3 - 128)))
               (utf8_decode rest)
      else None)"

text \<open>
  \<open>max(vocab.values(), key=len)\<close>: the first of the longest values; \<open>max\<close> of an empty
  sequence raises \<open>ValueError\<close>.
\<close>

fun max_key_len :: "bytes \<Rightarrow> bytes list \<Rightarrow> bytes" where
  "max_key_len best [] = best"
| "max_key_len best (v # vs) =
     (if length best < length v then max_key_len v vs else max_key_len best vs)"

text \<open>
  The value \<open>analyze_vocab\<close> returns; its printing is left out. The token id looked up for
  the report always exists, and the statistics of the \<open>finally\<close> block divide by the number
  of tokens, which is not zero once \<open>max\<close> has returned.
\<close>

definition analyze_vocab :: "(int, bytes) dict \<Rightarrow> (bytes \<times> bytes) list \<Rightarrow> py_error + ustr option" where
  "analyze_vocab vocab merges =
     (case map snd vocab of
        [] \<Rightarrow> Inl ValueError
      | v # vs \<Rightarrow> (let longest_token = max_key_len v vs in Inr (utf8_decode longest_token)))"

section \<open>\<open>run_train_bpe\<close>\<close>

text \<open>
  Modelled from the spec: \<open>run_train_bpe\<close> is imported from \<open>tests/adapters.py\<close>, which is
  not among the sources. This section follows sections 3, 4 and 7 of the specification:
  the Segmenter, the Frequency Index, the Merge Selector, the Incremental Updater and the
  state machine \<open>INITIALIZING \<rightarrow> MERGING \<rightarrow> DONE\<close>. Two things the
  specification leaves open are parameters: the pretokenization rule, and the frequency
  floor below which a pair is not eligible (1 in section 4.3, 2 in section 3). The
  frequency index is the recount from the current segments, which is what the
  specification requires the incrementally maintained index to equal after every merge.
\<close>

subsection \<open>Segmenter\<close>

definition utf8_encode_char :: "nat \<Rightarrow> bytes" where
  "utf8_encode_char c =
     (if c < 128 then [word_of_nat c]
      else if c < 2048 then [word_of_nat (192 + c div 64), word_of_nat (128 + c mod 64)]
      else if c < 65536 then
        [word_of_nat (224 + c div 4096), word_of_nat (128 + (c div 64) mod 64),
         word_of_nat (128 + c mod 64)]
      else
        [word_of_nat (240 + c div 262144), word_of_nat (128 + (c div 4096) mod 64),
         word_of_nat (128 + (c div 64) mod 64), word_of_nat (128 + c mod 64)])"

definition utf8_encode :: "ustr \<Rightarrow> bytes" where
  "utf8_encode s = concat (map utf8_encode_char s)"

text \<open>The longest non-empty special token that the text starts with, if any.\<close>

definition longest_special :: "bytes list \<Rightarrow> bytes \<Rightarrow> bytes option" where
  "longest_special special_tokens s =
     fold (\<lambda>t best.
             if t \<noteq> [] \<and> take (length t) s = t
                \<and> (case best of None \<Rightarrow> True | Some u \<Rightarrow> length u < length t)
             then Some t else best)
          special_tokens None"

text \<open>
  Splitting the corpus at the special tokens, which are dropped: \<open>skip\<close> counts the bytes
  of a special token still to be passed over, \<open>chunk\<close> is the chunk being read.
\<close>

fun split_on_special :: "bytes list \<Rightarrow> nat \<Rightarrow> bytes \<Rightarrow> bytes \<Rightarrow> bytes list" where
  "split_on_special special_tokens skip chunk [] = [chunk]"
| "split_on_special special_tokens skip chunk (b # rest) =
     (if 0 < skip then split_on_special special_tokens (skip - 1) chunk rest
      else case longest_special special_tokens (b # rest) of
             Some t \<Rightarrow> chunk # split_on_special special_tokens (length t - 1) [] rest
           | None \<Rightarrow> split_on_special special_tokens 0 (chunk @ [b]) rest)"

text \<open>The distinct pretokens with their numbers of occurrences.\<close>

definition segmenter :: "(bytes \<Rightarrow> bytes list) \<Rightarrow> bytes \<Rightarrow> bytes list \<Rightarrow> (bytes \<times> nat) list" where
  "segmenter pretokenize corpus special_tokens =
     (let pretokens = concat (map pretokenize (split_on_special special_tokens 0 [] corpus))
      in map (\<lambda>w. (w, count_list pretokens w)) (remdups pretokens))"

subsection \<open>Frequency Index\<close>

text \<open>
  A symbol is its byte string; a segment is its sequence of symbols with its count. The
  frequency of a pair is the sum, over the segments, of the count times the number of
  places where the pair occurs in the segment.
\<close>

type_synonym segment = "bytes list \<times> nat"

fun adjacent_pairs :: "'a list \<Rightarrow> ('a \<times> 'a) list" where
  "adjacent_pairs (x # y # zs) = (x, y) # adjacent_pairs (y # zs)"
| "adjacent_pairs xs = []"

definition pair_frequency :: "segment list \<Rightarrow> bytes \<times> bytes \<Rightarrow> nat" where
  "pair_frequency segs p =
     sum_list (map (\<lambda>(symbols, n). n * count_list (adjacent_pairs symbols) p) segs)"

definition indexed_pairs :: "segment list \<Rightarrow> (bytes \<times> bytes) list" where
  "indexed_pairs segs = remdups (concat (map (\<lambda>(symbols, n). adjacent_pairs symbols) segs))"

subsection \<open>Merge Selector\<close>

text \<open>
  The pair the specification asks for: an indexed pair whose frequency reaches the floor,
  of maximum frequency, and among those of maximum frequency the greatest in the
  lexicographic order of the pairs of byte strings.
\<close>

definition selects :: "nat \<Rightarrow> segment list \<Rightarrow> bytes \<times> bytes \<Rightarrow> bool" where
  "selects min_frequency segs p \<longleftrightarrow>
     p \<in> set (indexed_pairs segs) \<and> min_frequency \<le> pair_frequency segs p \<and>
     (\<forall>q \<in> set (indexed_pairs segs). (pair_frequency segs q, q) \<le> (pair_frequency segs p, p))"

text \<open>The selector as a scan of the index; \<open>None\<close> is the signal that no pair is available.\<close>

definition merge_selector :: "nat \<Rightarrow> segment list \<Rightarrow> (bytes \<times> bytes) option" where
  "merge_selector min_frequency segs =
     (case indexed_pairs segs of
        [] \<Rightarrow> None
      | p # ps \<Rightarrow>
          (let best = fold (\<lambda>q best. if (pair_frequency segs best, best) < (pair_frequency segs q, q)
                                     then q else best) ps p
           in if min_frequency \<le> pair_frequency segs best then Some best else None))"

subsection \<open>Incremental Updater\<close>

text \<open>One left-to-right scan of a segment, replacing each adjacent \<open>a, b\<close> by the new symbol.\<close>

fun merge_in_segment :: "bytes \<Rightarrow> bytes \<Rightarrow> bytes list \<Rightarrow> bytes list" where
  "merge_in_segment a b (x # y # zs) =
     (if x = a \<and> y = b then (a @ b) # merge_in_segment a b zs
      else x # merge_in_segment a b (y # zs))"
| "merge_in_segment a b xs = xs"

record bpe_state =
  st_segments :: "segment list"
  st_vocabulary :: "bytes list"
  st_merges :: "(bytes \<times> bytes) list"

text \<open>
  The token id of a vocabulary entry is its position. A merge step gives the new symbol
  the next id, rewrites the segments and appends the merge record.
\<close>

definition incremental_updater :: "bytes \<times> bytes \<Rightarrow> bpe_state \<Rightarrow> bpe_state" where
  "incremental_updater p s =
     \<lparr> st_segments = map (\<lambda>(symbols, n). (merge_in_segment (fst p) (snd p) symbols, n)) (st_segments s),
       st_vocabulary = st_vocabulary s @ [fst p @ snd p],
       st_merges = st_merges s @ [p] \<rparr>"

subsection \<open>Vocabulary Builder and termination\<close>

definition initializing :: "(bytes \<Rightarrow> bytes list) \<Rightarrow> bytes \<Rightarrow> bytes list \<Rightarrow> bpe_state" where
  "initializing pretokenize corpus special_tokens =
     \<lparr> st_segments = map (\<lambda>(w, n). (map (\<lambda>b. [b]) w, n)) (segmenter pretokenize corpus special_tokens),
       st_vocabulary = map (\<lambda>n. [word_of_nat n]) [0..<256] @ special_tokens,
       st_merges = [] \<rparr>"

text \<open>
  The state \<open>MERGING\<close> as a step relation: a step is taken while the vocabulary is
  smaller than requested and the selector has a pair.
\<close>

inductive merging_step :: "nat \<Rightarrow> nat \<Rightarrow> bpe_state \<Rightarrow> bpe_state \<Rightarrow> bool"
  for min_frequency vocab_size where
  merge: "length (st_vocabulary s) < vocab_size \<Longrightarrow> selects min_frequency (st_segments s) p \<Longrightarrow>
          merging_step min_frequency vocab_size s (incremental_updater p s)"

definition done_state :: "nat \<Rightarrow> nat \<Rightarrow> bpe_state \<Rightarrow> bool" where
  "done_state min_frequency vocab_size s \<longleftrightarrow>
     vocab_size \<le> length (st_vocabulary s) \<or> (\<forall>p. \<not> selects min_frequency (st_segments s) p)"

text \<open>\<open>training_run s t\<close>: from \<open>s\<close>, merging can end in \<open>DONE\<close> with the state \<open>t\<close>.\<close>

inductive training_run :: "nat \<Rightarrow> nat \<Rightarrow> bpe_state \<Rightarrow> bpe_state \<Rightarrow> bool"
  for min_frequency vocab_size where
  finished: "done_state min_frequency vocab_size s \<Longrightarrow> training_run min_frequency vocab_size s s"
| merged: "merging_step min_frequency vocab_size s s' \<Longrightarrow> training_run min_frequency vocab_size s' t \<Longrightarrow>
           training_run min_frequency vocab_size s t"

text \<open>The same loop as a function.\<close>

function merging :: "nat \<Rightarrow> nat \<Rightarrow> bpe_state \<Rightarrow> bpe_state" where
  "merging min_frequency vocab_size s =
     (if length (st_vocabulary s) < vocab_size then
        (case merge_selector min_frequency (st_segments s) of
           None \<Rightarrow> s
         | Some p \<Rightarrow> merging min_frequency vocab_size (incremental_updater p s))
      else s)"
  by pat_completeness auto
termination
  by (relation "measure (\<lambda>(min_frequency, vocab_size, s). vocab_size - length (st_vocabulary s))")
     (auto simp: incremental_updater_def)

declare merging.simps [simp del]

text \<open>
  The entry point: the configuration is checked before anything else, then the corpus is
  read (a text file, encoded in UTF-8), then the state machine runs. The result is the
  vocabulary as a dictionary from token id to bytes and the list of merges. A path that
  holds a JSON document is not rendered back to its text here and is reported like a
  file that cannot be read.
\<close>

definition read_corpus :: "filesystem \<Rightarrow> ustr \<Rightarrow> py_error + bytes" where
  "read_corpus fs input_path =
     (case fs input_path of
        None \<Rightarrow> Inl FileNotFoundError
      | Some (Text t) \<Rightarrow> Inr (utf8_encode t)
      | Some _ \<Rightarrow> Inl PermissionError)"

definition vocab_dict :: "bytes list \<Rightarrow> (int, bytes) dict" where
  "vocab_dict vocabulary = zip (map int [0..<length vocabulary]) vocabulary"

definition run_train_bpe ::
  "(bytes \<Rightarrow> bytes list) \<Rightarrow> nat \<Rightarrow> filesystem \<Rightarrow> ustr \<Rightarrow> int \<Rightarrow> ustr list \<Rightarrow>
   py_error + ((int, bytes) dict \<times> (bytes \<times> bytes) list)" where
  "run_train_bpe pretokenize min_frequency fs input_path vocab_size special_tokens =
     (if vocab_size < 256 + int (length special_tokens) then Inl ConfigurationError
      else case read_corpus fs input_path of
             Inl e \<Rightarrow> Inl e
           | Inr corpus \<Rightarrow>
               (let s = merging min_frequency (nat vocab_size)
                          (initializing pretokenize corpus (map utf8_encode special_tokens))
                in Inr (vocab_dict (st_vocabulary s), st_merges s)))"

text \<open>
  The runs the specification allows, as a relation between the inputs and a result: the
  selector is the relation \<open>selects\<close>, not a particular scan of the index.
\<close>

inductive bpe_training ::
  "(bytes \<Rightarrow> bytes list) \<Rightarrow> nat \<Rightarrow> filesystem \<Rightarrow> ustr \<Rightarrow> int \<Rightarrow> ustr list \<Rightarrow>
   py_error + ((int, bytes) dict \<times> (bytes \<times> bytes) list) \<Rightarrow> bool"
  for pretokenize min_frequency fs input_path vocab_size special_tokens where
  configuration_error:
    "vocab_size < 256 + int (length special_tokens) \<Longrightarrow>
     bpe_training pretokenize min_frequency fs input_path vocab_size special_tokens
       (Inl ConfigurationError)"
| input_error:
    "256 + int (length special_tokens) \<le> vocab_size \<Longrightarrow> read_corpus fs input_path = Inl e \<Longrightarrow>
     bpe_training pretokenize min_frequency fs input_path vocab_size special_tokens (Inl e)"
| trained:
    "256 + int (length special_tokens) \<le> vocab_size \<Longrightarrow> read_corpus fs input_path = Inr corpus \<Longrightarrow>
     training_run min_frequency (nat vocab_size)
       (initializing pretokenize corpus (map utf8_encode special_tokens)) t \<Longrightarrow>
     bpe_training pretokenize min_frequency fs input_path vocab_size special_tokens
       (Inr (vocab_dict (st_vocabulary t), st_merges t))"

subsection \<open>An example\<close>

text \<open>
  The first scenario of section 8 of the specification: the corpus \<open>aaabdaaabac\<close>, with
  the pretokenization rule that takes every non-empty chunk as one pretoken.
\<close>

definition whole_chunk :: "bytes \<Rightarrow> bytes list" where
  "whole_chunk chunk = (if chunk = [] then [] else [chunk])"

definition example_corpus :: ustr where
  "example_corpus = ascii ''aaabdaaabac''"

definition example_fs :: filesystem where
  "example_fs = [ascii ''corpus.txt'' \<mapsto> Text example_corpus, ascii ''locked.txt'' \<mapsto> Unreadable]"

section \<open>\<open>train_bpe_tokenizer\<close> (bpe\_training\_utils.py)\<close>

text \<open>
  What the function takes from its surroundings: \<open>run_train_bpe\<close> and
  \<open>gpt2_bytes_to_unicode\<close>, which are imported from \<open>tests/\<close> and are not among the
  sources, and the measurements of the clock and of \<open>tracemalloc\<close>. \<open>run_train_bpe\<close> is
  given the file system to read the corpus from.
\<close>

record environment =
  env_run_train_bpe ::
    "filesystem \<Rightarrow> ustr \<Rightarrow> int \<Rightarrow> ustr list \<Rightarrow> py_error + ((int, bytes) dict \<times> (bytes \<times> bytes) list)"
  env_gpt2_bytes_to_unicode :: "byte \<Rightarrow> nat"
  env_elapsed_time :: real
  env_peak_memory :: nat

text \<open>The environment in which the two imported functions are the ones modelled above.\<close>

definition spec_environment :: "(bytes \<Rightarrow> bytes list) \<Rightarrow> nat \<Rightarrow> real \<Rightarrow> nat \<Rightarrow> environment" where
  "spec_environment pretokenize min_frequency elapsed_time peak_memory =
     \<lparr> env_run_train_bpe = run_train_bpe pretokenize min_frequency,
       env_gpt2_bytes_to_unicode = gpt2_bytes_to_unicode,
       env_elapsed_time = elapsed_time,
       env_peak_memory = peak_memory \<rparr>"

text \<open>
  The state the function acts on: the file system, and a trace of the call of
  \<open>run_train_bpe\<close> and of the two error reports. The other printing is left out.
\<close>

datatype event =
    Input_file_not_found ustr
  | Called_run_train_bpe ustr int "ustr list"
  | Error_during_training py_error

record world =
  w_fs :: filesystem
  w_trace :: "event list"

datatype exit = SystemExit int

text \<open>\<open>str.lower\<close> on the ASCII letters; other characters are left as they are.\<close>

definition py_lower :: "ustr \<Rightarrow> ustr" where
  "py_lower s = map (\<lambda>c. if 65 \<le> c \<and> c \<le> 90 then c + 32 else c) s"

definition log_event :: "event \<Rightarrow> world \<Rightarrow> world" where
  "log_event e w = w\<lparr>w_trace := w_trace w @ [e]\<rparr>"

text \<open>
  \<open>sys.exit(1)\<close> is the result \<open>Inl (SystemExit 1)\<close>. Everything after the existence check
  runs inside \<open>try\<close>, and every exception there ends in \<open>sys.exit(1)\<close>.
\<close>

definition train_bpe_tokenizer ::
  "environment \<Rightarrow> ustr \<Rightarrow> int \<Rightarrow> ustr list \<Rightarrow> ustr \<Rightarrow> ustr \<Rightarrow> world \<Rightarrow>
   (exit + ((int, bytes) dict \<times> (bytes \<times> bytes) list \<times> real \<times> nat \<times> ustr option)) \<times> world" where
  "train_bpe_tokenizer env input_path vocab_size special_tokens output_dir dataset_name w =
     (case w_fs w input_path of
        None \<Rightarrow> (Inl (SystemExit 1), log_event (Input_file_not_found input_path) w)
      | Some f \<Rightarrow>
          (let w1 = log_event (Called_run_train_bpe input_path vocab_size special_tokens) w in
           case env_run_train_bpe env (w_fs w1) input_path vocab_size special_tokens of
             Inl e \<Rightarrow> (Inl (SystemExit 1), log_event (Error_during_training e) w1)
           | Inr (vocab, merges) \<Rightarrow>
               (case analyze_vocab vocab merges of
                  Inl e \<Rightarrow> (Inl (SystemExit 1), log_event (Error_during_training e) w1)
                | Inr longest_token_decoded \<Rightarrow>
                    (let w2 = w1\<lparr>w_fs := save_vocab_and_merges (env_gpt2_bytes_to_unicode env) vocab merges
                                          output_dir (py_lower dataset_name @ ascii ''_'') (w_fs w1)\<rparr>
                     in (Inr (vocab, merges, env_elapsed_time env, env_peak_memory env,
                              longest_token_decoded), w2)))))"

section \<open>Properties of the Python values\<close>

subsection \<open>Dictionaries and decimal numerals\<close>

lemma dict_set_fresh: "k \<notin> fst ` set d \<Longrightarrow> dict_set k v d = d @ [(k, v)]"
  by (induction d) auto

lemma fold_dict_set_distinct:
  assumes "inj f"
  shows "distinct (map fst kvs) \<Longrightarrow> f ` fst ` set kvs \<inter> fst ` set d = {} \<Longrightarrow>
         fold (\<lambda>(k, v) d. dict_set (f k) (g v) d) kvs d = d @ map (\<lambda>(k, v). (f k, g v)) kvs"
proof (induction kvs arbitrary: d)
  case Nil
  then show ?case by simp
next
  case (Cons kv kvs)
  obtain k v where kv: "kv = (k, v)" by (cases kv)
  have fresh: "f k \<notin> fst ` set d" using Cons.prems(2) kv by auto
  have knot: "k \<notin> fst ` set kvs" using Cons.prems(1) kv by (simp add: image_iff) 
  have disj: "f ` fst ` set kvs \<inter> fst ` set (d @ [(f k, g v)]) = {}"
  proof -
    have "f k \<notin> f ` fst ` set kvs" using knot assms by (auto dest: injD)
    then show ?thesis using Cons.prems(2) by auto
  qed
  have "fold (\<lambda>(k, v) d. dict_set (f k) (g v) d) (kv # kvs) d
        = fold (\<lambda>(k, v) d. dict_set (f k) (g v) d) kvs (d @ [(f k, g v)])"
    using fresh by (simp add: kv dict_set_fresh)
  also have "\<dots> = (d @ [(f k, g v)]) @ map (\<lambda>(k, v). (f k, g v)) kvs"
    using Cons.IH [OF _ disj] Cons.prems(1) by simp
  finally show ?case by (simp add: kv)
qed

lemma digits_nonempty: "digits n \<noteq> []"
  by (subst digits.simps) simp

lemma digits_are_digits: "c \<in> set (digits n) \<Longrightarrow> 48 \<le> c \<and> c \<le> 57"
proof (induction n arbitrary: c rule: digits.induct)
  case (1 n)
  show ?case
  proof (cases "n < 10")
    case True
    with "1.prems" show ?thesis by (subst (asm) digits.simps) auto
  next
    case False
    with "1.prems" have "c \<in> set (digits (n div 10)) \<or> c = 48 + n mod 10"
      by (subst (asm) digits.simps) auto
    then show ?thesis using "1.IH" [OF False] by (auto intro: )
  qed
qed

lemma parse_digits_append:
  "parse_digits acc (xs @ ys) = (case parse_digits acc xs of None \<Rightarrow> None | Some a \<Rightarrow> parse_digits a ys)"
  by (induction xs arbitrary: acc) auto

lemma parse_digits_digits: "parse_digits 0 (digits n) = Some n"
proof (induction n rule: digits.induct)
  case (1 n)
  show ?case
  proof (cases "n < 10")
    case True
    then show ?thesis by (subst digits.simps) simp
  next
    case False
    have "parse_digits 0 (digits n) = parse_digits 0 (digits (n div 10) @ [48 + n mod 10])"
      using False by (subst digits.simps) simp
    also have "\<dots> = Some (10 * (n div 10) + n mod 10)"
      using "1.IH" [OF False] by (simp add: parse_digits_append)
    finally show ?thesis by simp
  qed
qed

lemma parse_nat_digits: "parse_nat (digits n) = Inr n"
  by (simp add: parse_nat_def digits_nonempty parse_digits_digits)

lemma digit_not_space: "48 \<le> c \<and> c \<le> 57 \<Longrightarrow> \<not> isspace c"
  by (auto simp: isspace_def)

lemma py_strip_id:
  assumes "s \<noteq> []" "\<not> isspace (hd s)" "\<not> isspace (last s)"
  shows "py_strip s = s"
proof -
  have 1: "dropWhile isspace s = s" using assms by (cases s) auto
  have 2: "dropWhile isspace (rev s) = rev s" using assms by (cases "rev s") (auto simp: last_rev hd_rev)
  show ?thesis by (simp add: py_strip_def 1 2)
qed

lemma py_int_str_int: "py_int (str_int i) = Inr i"
proof (cases "i < 0")
  case True
  let ?d = "digits (nat (- i))"
  have ne: "?d \<noteq> []" by (rule digits_nonempty)
  have "last (45 # ?d) = last ?d" using ne by simp
  moreover have "last ?d \<in> set ?d" using ne by simp
  ultimately have "\<not> isspace (last (45 # ?d))"
    using digits_are_digits digit_not_space by metis
  moreover have "\<not> isspace (hd (45 # ?d))" by (simp add: isspace_def)
  ultimately have "py_strip (45 # ?d) = 45 # ?d" by (intro py_strip_id) simp_all
  then show ?thesis using True by (simp add: py_int_def str_int_def parse_nat_digits)
next
  case False
  let ?d = "digits (nat i)"
  have ne: "?d \<noteq> []" by (rule digits_nonempty)
  then obtain c r where cr: "?d = c # r" by (cases ?d) auto
  have hd_in: "hd ?d \<in> set ?d" and last_in: "last ?d \<in> set ?d" using ne by simp_all
  have "\<not> isspace (hd ?d)" "\<not> isspace (last ?d)"
    using hd_in last_in digits_are_digits digit_not_space by metis+
  then have strip: "py_strip ?d = ?d" using ne by (intro py_strip_id)
  have "c \<in> set ?d" using cr by simp
  then have c: "48 \<le> c \<and> c \<le> 57" by (rule digits_are_digits)
  have "parse_nat (c # r) = Inr (nat i)" using parse_nat_digits [of "nat i"] cr by simp
  then show ?thesis using False c strip cr by (simp add: py_int_def str_int_def)
qed

lemma inj_str_int: "inj str_int"
proof (rule injI)
  fix x y assume "str_int x = str_int y"
  then have "py_int (str_int x) = py_int (str_int y)" by simp
  then show "x = y" by (simp add: py_int_str_int)
qed

subsection \<open>Hexadecimal strings\<close>

lemma hex_value_hex_digit: "n < 16 \<Longrightarrow> hex_value (hex_digit n) = Some n"
  by (auto simp: hex_value_def hex_digit_def)

lemma hex_digit_not_space: "n < 16 \<Longrightarrow> \<not> isspace (hex_digit n) \<and> \<not> ascii_space (hex_digit n) \<and> hex_digit n \<noteq> 10 \<and> hex_digit n \<noteq> 13"
  by (auto simp: isspace_def ascii_space_def hex_digit_def)

lemma byte_nibbles: "word_of_nat (16 * (unat (b::byte) div 16) + unat b mod 16) = b"
  by simp

lemma fromhex_pair:
  assumes "hex_value c = Some h" "hex_value d = Some l" "\<not> ascii_space c"
  shows "fromhex (c # d # rest) =
      (case fromhex rest of Inl e \<Rightarrow> Inl e | Inr bs \<Rightarrow> Inr (word_of_nat (16 * h + l) # bs))"
  using assms by (simp del: of_nat_add of_nat_mult)

lemma fromhex_hex_byte:
  "fromhex (hex_byte b @ rest) = (case fromhex rest of Inl e \<Rightarrow> Inl e | Inr bs \<Rightarrow> Inr (b # bs))"
proof -
  have d: "unat b div 16 < 16" using unsigned_less [of b, where ?'a = nat] by simp
  have m: "unat b mod 16 < 16" by simp
  have "hex_byte b @ rest = hex_digit (unat b div 16) # hex_digit (unat b mod 16) # rest"
    by (simp add: hex_byte_def)
  then have "fromhex (hex_byte b @ rest) =
      (case fromhex rest of Inl e \<Rightarrow> Inl e
       | Inr bs \<Rightarrow> Inr (word_of_nat (16 * (unat b div 16) + unat b mod 16) # bs))"
    using fromhex_pair [OF hex_value_hex_digit [OF d] hex_value_hex_digit [OF m], of rest]
      hex_digit_not_space [OF d] by presburger
  then show ?thesis by (simp only: byte_nibbles)
qed

lemma fromhex_bytes_hex: "fromhex (bytes_hex bs) = Inr bs"
proof (induction bs)
  case Nil
  then show ?case by (simp add: bytes_hex_def)
next
  case (Cons b bs)
  have "bytes_hex (b # bs) = hex_byte b @ bytes_hex bs" by (simp add: bytes_hex_def)
  then show ?case using Cons.IH by (simp only: fromhex_hex_byte sum.case)
qed


lemma hex_byte_chars:
  assumes "c \<in> set (hex_byte b)"
  shows "\<not> isspace c \<and> c \<noteq> 10 \<and> c \<noteq> 13"
proof -
  have d: "unat b div 16 < 16" using unsigned_less [of b, where ?'a = nat] by simp
  have m: "unat b mod 16 < 16" by simp
  from assms have "c = hex_digit (unat b div 16) \<or> c = hex_digit (unat b mod 16)"
    by (simp add: hex_byte_def)
  then show ?thesis
  proof
    assume "c = hex_digit (unat b div 16)"
    then show ?thesis using hex_digit_not_space [OF d] by simp
  next
    assume "c = hex_digit (unat b mod 16)"
    then show ?thesis using hex_digit_not_space [OF m] by simp
  qed
qed

lemma bytes_hex_no_space:
  assumes "c \<in> set (bytes_hex bs)"
  shows "\<not> isspace c \<and> c \<noteq> 10 \<and> c \<noteq> 13"
proof -
  from assms obtain b where "c \<in> set (hex_byte b)" by (auto simp: bytes_hex_def)
  then show ?thesis by (rule hex_byte_chars)
qed

lemma bytes_hex_empty: "bytes_hex bs = [] \<longleftrightarrow> bs = []"
  by (cases bs) (simp_all add: bytes_hex_def hex_byte_def)

subsection \<open>Lines, \<open>strip\<close> and \<open>split\<close>\<close>

lemma fold_append_concat: "fold (\<lambda>x f. f @ g x) xs acc = acc @ concat (map g xs)"
  by (induction xs arbitrary: acc) simp_all

lemma universal_newlines_id: "13 \<notin> set s \<Longrightarrow> universal_newlines s = s"
  by (induction s rule: universal_newlines.induct) simp_all

lemma readlines_acc_line:
  "10 \<notin> set l \<Longrightarrow> readlines_acc cur (l @ 10 # rest) = (cur @ l @ [10]) # readlines_acc [] rest"
  by (induction l arbitrary: cur) simp_all

lemma readlines_acc_concat:
  "(\<And>x. x \<in> set xs \<Longrightarrow> 10 \<notin> set (body x)) \<Longrightarrow>
   readlines_acc [] (concat (map (\<lambda>x. body x @ [10]) xs)) = map (\<lambda>x. body x @ [10]) xs"
proof (induction xs)
  case Nil
  then show ?case by simp
next
  case (Cons x xs)
  have "10 \<notin> set (body x)" using Cons.prems by simp
  then have "readlines_acc [] (body x @ 10 # concat (map (\<lambda>x. body x @ [10]) xs))
      = ([] @ body x @ [10]) # readlines_acc [] (concat (map (\<lambda>x. body x @ [10]) xs))"
    by (rule readlines_acc_line)
  then show ?case using Cons by simp
qed

lemma file_lines_concat:
  assumes "\<And>x c. x \<in> set xs \<Longrightarrow> c \<in> set (body x) \<Longrightarrow> c \<noteq> 10 \<and> c \<noteq> 13"
  shows "file_lines (concat (map (\<lambda>x. body x @ [10]) xs)) = map (\<lambda>x. body x @ [10]) xs"
proof -
  have "13 \<notin> set (concat (map (\<lambda>x. body x @ [10]) xs))" using assms by auto
  then have "universal_newlines (concat (map (\<lambda>x. body x @ [10]) xs))
             = concat (map (\<lambda>x. body x @ [10]) xs)"
    by (rule universal_newlines_id)
  moreover have "\<And>x. x \<in> set xs \<Longrightarrow> 10 \<notin> set (body x)" using assms by blast
  ultimately show ?thesis by (simp add: file_lines_def readlines_acc_concat)
qed

lemma py_strip_line:
  assumes "s \<noteq> []" "\<not> isspace (hd s)" "\<not> isspace (last s)"
  shows "py_strip (s @ [10]) = s"
proof -
  have 1: "dropWhile isspace (s @ [10]) = s @ [10]" using assms by (cases s) auto
  have 2: "dropWhile isspace (rev s) = rev s"
    using assms by (cases "rev s") (auto simp: last_rev hd_rev)
  have 3: "isspace 10" by (simp add: isspace_def)
  show ?thesis by (simp add: py_strip_def 1 2 3)
qed

lemma py_split_acc_word:
  "(\<And>c. c \<in> set a \<Longrightarrow> \<not> isspace c) \<Longrightarrow> py_split_acc cur (a @ rest) = py_split_acc (cur @ a) rest"
  by (induction a arbitrary: cur) simp_all

lemma py_split_two:
  assumes "a \<noteq> []" "b \<noteq> []" "\<And>c. c \<in> set a \<Longrightarrow> \<not> isspace c" "\<And>c. c \<in> set b \<Longrightarrow> \<not> isspace c"
  shows "py_split (a @ 32 # b) = [a, b]"
proof -
  have "py_split (a @ 32 # b) = py_split_acc a (32 # b)"
    using py_split_acc_word [of a "[]" "32 # b"] assms(3) by (simp add: py_split_def)
  also have "\<dots> = a # py_split_acc [] b" using assms(1) by (simp add: isspace_def)
  also have "py_split_acc [] b = py_split_acc b []"
    using py_split_acc_word [of b "[]" "[]"] assms(4) by simp
  also have "\<dots> = [b]" using assms(2) by simp
  finally show ?thesis .
qed

section \<open>What \<open>save_vocab_and_merges\<close> writes\<close>

lemma vocab_gpt2_of_distinct:
  assumes "distinct (map fst vocab)"
  shows "vocab_gpt2_of byte_encoder vocab
         = map (\<lambda>(token_id, token_bytes). (str_int token_id, token_str byte_encoder token_bytes)) vocab"
  unfolding vocab_gpt2_of_def
  using fold_dict_set_distinct [OF inj_str_int assms, of "[]" "token_str byte_encoder"] by simp

lemma vocab_serializable_of_distinct:
  assumes "distinct (map fst vocab)"
  shows "vocab_serializable_of vocab = map (\<lambda>(k, v). (k, bytes_hex v)) vocab"
  unfolding vocab_serializable_of_def
  using fold_dict_set_distinct [of "\<lambda>k. k", OF _ assms, of "[]" bytes_hex] by simp

lemma saved_vocab_json:
  "save_vocab_and_merges byte_encoder vocab merges output_dir name_prefix fs
     (path_join output_dir (name_prefix @ ascii ''vocab.json''))
   = Some (Json (json_of_str_dict (vocab_gpt2_of byte_encoder vocab)))"
  by (simp add: save_vocab_and_merges_def Let_def path_join_def ascii_def)

lemma saved_merges_txt:
  "save_vocab_and_merges byte_encoder vocab merges output_dir name_prefix fs
     (path_join output_dir (name_prefix @ ascii ''merges.txt''))
   = Some (Text (merges_txt_of byte_encoder merges))"
  by (simp add: save_vocab_and_merges_def Let_def path_join_def ascii_def)

lemma saved_vocab_raw_json:
  "save_vocab_and_merges byte_encoder vocab merges output_dir name_prefix fs
     (path_join output_dir (name_prefix @ ascii ''vocab_raw.json''))
   = Some (Json (json_of_int_dict (vocab_serializable_of vocab)))"
  by (simp add: save_vocab_and_merges_def Let_def path_join_def ascii_def)

lemma saved_merges_raw_txt:
  "save_vocab_and_merges byte_encoder vocab merges output_dir name_prefix fs
     (path_join output_dir (name_prefix @ ascii ''merges_raw.txt''))
   = Some (Text (raw_merges_txt_of merges))"
  by (simp add: save_vocab_and_merges_def Let_def path_join_def ascii_def)

lemma saved_elsewhere:
  assumes "p \<noteq> path_join output_dir (name_prefix @ ascii ''vocab.json'')"
          "p \<noteq> path_join output_dir (name_prefix @ ascii ''merges.txt'')"
          "p \<noteq> path_join output_dir (name_prefix @ ascii ''vocab_raw.json'')"
          "p \<noteq> path_join output_dir (name_prefix @ ascii ''merges_raw.txt'')"
  shows "save_vocab_and_merges byte_encoder vocab merges output_dir name_prefix fs p = fs p"
  using assms by (simp add: save_vocab_and_merges_def Let_def)

text \<open>
  Claim C10. For every vocabulary (a dictionary, so its token ids are pairwise distinct) and
  every byte-to-unicode table, the object written to \<open>vocab.json\<close> has exactly one entry
  per vocabulary entry: its keys are the decimal numerals of the token ids, in order and
  pairwise distinct, so it has \<open>len(vocab)\<close> entries, whether or not two tokens are
  mapped to the same string.
\<close>

theorem vocab_json_one_entry_per_token:
  assumes "distinct (map fst vocab)"
  shows "\<exists>entries.
           save_vocab_and_merges byte_encoder vocab merges output_dir name_prefix fs
             (path_join output_dir (name_prefix @ ascii ''vocab.json'')) = Some (Json (JObj entries))
         \<and> map fst entries = map (\<lambda>(token_id, token_bytes). str_int token_id) vocab
         \<and> distinct (map fst entries)
         \<and> length entries = length vocab"
proof -
  let ?entries = "map (\<lambda>(token_id, token_bytes). (str_int token_id, JStr (token_str byte_encoder token_bytes))) vocab"
  have written: "save_vocab_and_merges byte_encoder vocab merges output_dir name_prefix fs
             (path_join output_dir (name_prefix @ ascii ''vocab.json'')) = Some (Json (JObj ?entries))"
    by (simp add: saved_vocab_json vocab_gpt2_of_distinct [OF assms] json_of_str_dict_def split_def)
  have keys: "map fst ?entries = map (\<lambda>(token_id, token_bytes). str_int token_id) vocab"
    by (simp add: split_def)
  have "distinct (map str_int (map fst vocab))"
    using assms inj_on_subset [OF inj_str_int subset_UNIV] by (simp only: distinct_map)
  moreover have "map fst ?entries = map str_int (map fst vocab)" by (simp add: split_def)
  ultimately have dist: "distinct (map fst ?entries)" by (simp only:)
  show ?thesis using written keys dist by (intro exI [of _ ?entries]) simp
qed

theorem vocab_json_one_entry_per_token_witness:
  "distinct (map fst [(0::int, [97::byte]), (1, [98])]) \<and>
   (\<exists>entries.
      save_vocab_and_merges (\<lambda>b. 65) [(0, [97]), (1, [98])] [] (ascii ''out'') (ascii ''t_'') Map.empty
        (path_join (ascii ''out'') (ascii ''t_'' @ ascii ''vocab.json'')) = Some (Json (JObj entries))
      \<and> map fst entries = [str_int 0, str_int 1]
      \<and> map snd entries = [JStr [65], JStr [65]]
      \<and> distinct (map fst entries)
      \<and> length entries = 2)"
proof -
  have d: "distinct (map fst [(0::int, [97::byte]), (1, [98])])" by simp
  from vocab_json_one_entry_per_token [OF d, of "\<lambda>b. 65" "[]" "ascii ''out''" "ascii ''t_''" Map.empty]
  obtain entries where e:
    "save_vocab_and_merges (\<lambda>b. 65) [(0, [97]), (1, [98])] [] (ascii ''out'') (ascii ''t_'') Map.empty
        (path_join (ascii ''out'') (ascii ''t_'' @ ascii ''vocab.json'')) = Some (Json (JObj entries))"
    "map fst entries = map (\<lambda>(token_id, token_bytes). str_int token_id) [(0::int, [97::byte]), (1, [98])]"
    "distinct (map fst entries)" "length entries = length [(0::int, [97::byte]), (1, [98])]"
    by blast
  have "map snd entries = [JStr [65], JStr [65]]"
    using e(1) by (auto simp: saved_vocab_json vocab_gpt2_of_distinct [OF d] json_of_str_dict_def token_str_def)
  then show ?thesis using d e by auto
qed

subsection \<open>The text files\<close>

lemma merges_txt_of_concat:
  "merges_txt_of byte_encoder merges
   = merges_header @ concat (map (\<lambda>m. (token_str byte_encoder (fst m) @ 32 # token_str byte_encoder (snd m)) @ [10]) merges)"
proof -
  have "(\<lambda>(token1, token2) f.
             f @ (token_str byte_encoder token1 @ ascii '' '' @ token_str byte_encoder token2 @ [10]))
        = (\<lambda>m f. f @ ((token_str byte_encoder (fst m) @ 32 # token_str byte_encoder (snd m)) @ [10]))"
    by (simp add: fun_eq_iff ascii_def)
  then show ?thesis by (simp only: merges_txt_of_def fold_append_concat)
qed

lemma raw_merges_txt_of_concat:
  "raw_merges_txt_of merges
   = concat (map (\<lambda>m. (bytes_hex (fst m) @ 32 # bytes_hex (snd m)) @ [10]) merges)"
proof -
  have "(\<lambda>(token1, token2) f. f @ (bytes_hex token1 @ ascii '' '' @ bytes_hex token2 @ [10]))
        = (\<lambda>m f. f @ ((bytes_hex (fst m) @ 32 # bytes_hex (snd m)) @ [10]))"
    by (simp add: fun_eq_iff ascii_def)
  then show ?thesis by (simp add: raw_merges_txt_of_def fold_append_concat)
qed

lemma merges_header_chars: "c \<in> set (ascii ''#version: 0.2'') \<Longrightarrow> c \<noteq> 10 \<and> c \<noteq> 13"
  by (auto simp: ascii_def)

lemma file_lines_merges_txt:
  assumes "\<And>b. byte_encoder b \<noteq> 10 \<and> byte_encoder b \<noteq> 13"
  shows "file_lines (merges_txt_of byte_encoder merges)
         = merges_header
           # map (\<lambda>(token1, token2).
                    token_str byte_encoder token1 @ ascii '' '' @ token_str byte_encoder token2 @ [10])
                 merges"
proof -
  let ?body = "\<lambda>m. case m of None \<Rightarrow> ascii ''#version: 0.2''
                 | Some (token1, token2) \<Rightarrow> token_str byte_encoder token1 @ 32 # token_str byte_encoder token2"
  have shape: "merges_txt_of byte_encoder merges
             = concat (map (\<lambda>m. ?body m @ [10]) (None # map Some merges))"
    by (simp add: merges_txt_of_concat merges_header_def comp_def split_def)
  have ok: "\<And>x c. x \<in> set (None # map Some merges) \<Longrightarrow> c \<in> set (?body x) \<Longrightarrow> c \<noteq> 10 \<and> c \<noteq> 13"
  proof -
    fix x c assume x: "x \<in> set (None # map Some merges)" and c: "c \<in> set (?body x)"
    show "c \<noteq> 10 \<and> c \<noteq> 13"
    proof (cases x)
      case None
      then show ?thesis using c merges_header_chars by simp
    next
      case (Some m)
      then have "c = 32 \<or> (\<exists>b. c = byte_encoder b)"
        using c by (auto simp: token_str_def split: prod.splits)
      then show ?thesis using assms by auto
    qed
  qed
  have "file_lines (merges_txt_of byte_encoder merges) = map (\<lambda>m. ?body m @ [10]) (None # map Some merges)"
    unfolding shape using ok by (rule file_lines_concat)
  then show ?thesis by (simp add: merges_header_def comp_def split_def ascii_def)
qed

subsection \<open>The GPT-2 table\<close>

lemma gpt2_bytes_to_unicode_range:
  "33 \<le> gpt2_bytes_to_unicode b \<and> gpt2_bytes_to_unicode b \<le> 323
   \<and> \<not> (127 \<le> gpt2_bytes_to_unicode b \<and> gpt2_bytes_to_unicode b \<le> 160)
   \<and> gpt2_bytes_to_unicode b \<noteq> 173"
proof -
  have "unat b < 256" using unsigned_less [of b, where ?'a = nat] by simp
  then show ?thesis by (auto simp: gpt2_bytes_to_unicode_def Let_def)
qed

lemma gpt2_bytes_to_unicode_no_linebreak:
  "gpt2_bytes_to_unicode b \<noteq> 10 \<and> gpt2_bytes_to_unicode b \<noteq> 13"
  using gpt2_bytes_to_unicode_range [of b] by arith

lemma inj_gpt2_bytes_to_unicode: "inj gpt2_bytes_to_unicode"
proof (rule injI)
  fix x y :: byte
  assume eq: "gpt2_bytes_to_unicode x = gpt2_bytes_to_unicode y"
  have x: "unat x < 256" using unsigned_less [of x, where ?'a = nat] by simp
  have y: "unat y < 256" using unsigned_less [of y, where ?'a = nat] by simp
  have "unat x = unat y"
    using eq x y by (simp add: gpt2_bytes_to_unicode_def Let_def split: if_splits)
  then show "x = y" by (rule word_unat_eq_iff [THEN iffD2])
qed

text \<open>
  Claim C3. For every merge list, and every byte-to-unicode table that never yields a line
  break (as a table of printable code points does not), the file \<open>merges.txt\<close> that
  \<open>save_vocab_and_merges\<close> writes reads back as the version header line followed by exactly
  one line per merge, in merge order; the line of a merge is its two byte strings, each mapped
  through the table, with a single space between them.
\<close>

theorem merges_txt_header_then_one_line_per_merge:
  assumes "\<And>b. byte_encoder b \<noteq> 10 \<and> byte_encoder b \<noteq> 13"
  shows "\<exists>written.
           save_vocab_and_merges byte_encoder vocab merges output_dir name_prefix fs
             (path_join output_dir (name_prefix @ ascii ''merges.txt'')) = Some (Text written)
         \<and> file_lines written
             = (ascii ''#version: 0.2'' @ [10])
               # map (\<lambda>(token1, token2).
                        token_str byte_encoder token1 @ ascii '' '' @ token_str byte_encoder token2 @ [10])
                     merges
         \<and> length (file_lines written) = 1 + length merges"
proof -
  have "file_lines (merges_txt_of byte_encoder merges)
        = (ascii ''#version: 0.2'' @ [10])
          # map (\<lambda>(token1, token2).
                   token_str byte_encoder token1 @ ascii '' '' @ token_str byte_encoder token2 @ [10])
                merges"
    using file_lines_merges_txt [of byte_encoder merges, OF assms] by (simp only: merges_header_def)
  then show ?thesis by (simp add: saved_merges_txt)
qed

theorem merges_txt_header_then_one_line_per_merge_witness:
  "(\<forall>b. gpt2_bytes_to_unicode b \<noteq> 10 \<and> gpt2_bytes_to_unicode b \<noteq> 13) \<and>
   (\<exists>written.
      save_vocab_and_merges gpt2_bytes_to_unicode [] [([32], [116]), ([32, 116], [104])]
        (ascii ''out'') (ascii ''t_'') Map.empty
        (path_join (ascii ''out'') (ascii ''t_'' @ ascii ''merges.txt'')) = Some (Text written)
    \<and> file_lines written = [ascii ''#version: 0.2'' @ [10], [288, 32, 116, 10], [288, 116, 32, 104, 10]])"
proof -
  have nl: "\<And>b. gpt2_bytes_to_unicode b \<noteq> 10 \<and> gpt2_bytes_to_unicode b \<noteq> 13"
    by (rule gpt2_bytes_to_unicode_no_linebreak)
  from merges_txt_header_then_one_line_per_merge
         [of gpt2_bytes_to_unicode "[]" "[([32], [116]), ([32, 116], [104])]" "ascii ''out''" "ascii ''t_''" Map.empty,
          OF nl]
  obtain written where w:
    "save_vocab_and_merges gpt2_bytes_to_unicode [] [([32], [116]), ([32, 116], [104])]
        (ascii ''out'') (ascii ''t_'') Map.empty
        (path_join (ascii ''out'') (ascii ''t_'' @ ascii ''merges.txt'')) = Some (Text written)"
    "file_lines written
       = (ascii ''#version: 0.2'' @ [10])
         # map (\<lambda>(token1, token2).
                  token_str gpt2_bytes_to_unicode token1 @ ascii '' '' @ token_str gpt2_bytes_to_unicode token2 @ [10])
               [([32], [116]), ([32, 116], [104])]"
    by blast
  have "file_lines written = [ascii ''#version: 0.2'' @ [10], [288, 32, 116, 10], [288, 116, 32, 104, 10]]"
    using w(2) by (simp add: token_str_def gpt2_bytes_to_unicode_def ascii_def)
  then show ?thesis using nl w(1) by blast
qed

section \<open>Reading the raw files back\<close>

lemma dict_of_object_distinct:
  assumes "distinct (map fst kvs)"
  shows "dict_of_object kvs = kvs"
  unfolding dict_of_object_def
  using fold_dict_set_distinct [of "\<lambda>k. k", OF _ assms, of "[]" "\<lambda>v. v"] by simp

lemma load_vocab_items_saved:
  "distinct (map fst (acc @ vocab)) \<Longrightarrow>
   load_vocab_items (map (\<lambda>(k, v). (str_int k, JStr (bytes_hex v))) vocab) acc = Inr (acc @ vocab)"
proof (induction vocab arbitrary: acc)
  case Nil
  then show ?case by simp
next
  case (Cons kv vocab)
  obtain k v where kv: "kv = (k, v)" by (cases kv)
  have fresh: "k \<notin> fst ` set acc" using Cons.prems kv by auto
  have d: "distinct (map fst ((acc @ [(k, v)]) @ vocab))" using Cons.prems kv by simp
  have "load_vocab_items (map (\<lambda>(k, v). (str_int k, JStr (bytes_hex v))) (kv # vocab)) acc
        = load_vocab_items (map (\<lambda>(k, v). (str_int k, JStr (bytes_hex v))) vocab) (acc @ [(k, v)])"
    by (simp add: kv py_int_str_int fromhex_bytes_hex dict_set_fresh [OF fresh])
  also have "\<dots> = Inr ((acc @ [(k, v)]) @ vocab)" by (rule Cons.IH [OF d])
  finally show ?case by (simp add: kv)
qed

lemma load_merges_line:
  assumes "t1 \<noteq> []" "t2 \<noteq> []"
  shows "py_strip ((bytes_hex t1 @ 32 # bytes_hex t2) @ [10]) = bytes_hex t1 @ 32 # bytes_hex t2"
    and "py_split (bytes_hex t1 @ 32 # bytes_hex t2) = [bytes_hex t1, bytes_hex t2]"
proof -
  have ne1: "bytes_hex t1 \<noteq> []" and ne2: "bytes_hex t2 \<noteq> []"
    using assms by (simp_all add: bytes_hex_empty)
  have hd_ok: "\<not> isspace (hd (bytes_hex t1 @ 32 # bytes_hex t2))"
    using ne1 bytes_hex_no_space [of "hd (bytes_hex t1)" t1] by simp
  have last_ok: "\<not> isspace (last (bytes_hex t1 @ 32 # bytes_hex t2))"
    using ne2 bytes_hex_no_space [of "last (bytes_hex t2)" t2] by simp
  show "py_strip ((bytes_hex t1 @ 32 # bytes_hex t2) @ [10]) = bytes_hex t1 @ 32 # bytes_hex t2"
    using hd_ok last_ok by (intro py_strip_line) simp_all
  show "py_split (bytes_hex t1 @ 32 # bytes_hex t2) = [bytes_hex t1, bytes_hex t2]"
    using ne1 ne2 bytes_hex_no_space by (intro py_split_two) blast+
qed

lemma load_merges_lines_saved:
  "(\<And>m. m \<in> set merges \<Longrightarrow> fst m \<noteq> [] \<and> snd m \<noteq> []) \<Longrightarrow>
   load_merges_lines (map (\<lambda>m. (bytes_hex (fst m) @ 32 # bytes_hex (snd m)) @ [10]) merges) acc
   = Inr (acc @ merges)"
proof (induction merges arbitrary: acc)
  case Nil
  then show ?case by simp
next
  case (Cons m merges)
  have ne: "fst m \<noteq> []" "snd m \<noteq> []" using Cons.prems by simp_all
  have body_ne: "bytes_hex (fst m) @ 32 # bytes_hex (snd m) \<noteq> []" by simp
  have "load_merges_lines (map (\<lambda>m. (bytes_hex (fst m) @ 32 # bytes_hex (snd m)) @ [10]) (m # merges)) acc
        = load_merges_lines (map (\<lambda>m. (bytes_hex (fst m) @ 32 # bytes_hex (snd m)) @ [10]) merges)
            (acc @ [(fst m, snd m)])"
    using body_ne
    by (simp add: load_merges_line [OF ne] fromhex_bytes_hex del: append_assoc append.simps)
  also have "\<dots> = Inr ((acc @ [(fst m, snd m)]) @ merges)"
    using Cons.prems by (intro Cons.IH) simp
  finally show ?case by simp
qed

lemma file_lines_raw_merges_txt:
  "file_lines (raw_merges_txt_of merges)
   = map (\<lambda>m. (bytes_hex (fst m) @ 32 # bytes_hex (snd m)) @ [10]) merges"
proof -
  have "\<And>x c. x \<in> set merges \<Longrightarrow> c \<in> set (bytes_hex (fst x) @ 32 # bytes_hex (snd x)) \<Longrightarrow>
          c \<noteq> 10 \<and> c \<noteq> 13"
    using bytes_hex_no_space by auto
  then show ?thesis unfolding raw_merges_txt_of_concat by (rule file_lines_concat)
qed

text \<open>
  Claim C5, amended. For every vocabulary and every merge list whose byte strings are all
  non-empty, \<open>load_tokenizer\<close> with the same directory and prefix reads back, from the raw
  files that \<open>save_vocab_and_merges\<close> wrote, exactly the vocabulary and exactly the merge
  list. (A merge with an empty byte string is written as a line with fewer than two
  hexadecimal strings, which the loader cannot unpack; see the counterexample below.)
\<close>

theorem raw_files_round_trip:
  assumes "distinct (map fst vocab)"
      and "\<And>token1 token2. (token1, token2) \<in> set merges \<Longrightarrow> token1 \<noteq> [] \<and> token2 \<noteq> []"
  shows "load_tokenizer output_dir name_prefix
           (save_vocab_and_merges byte_encoder vocab merges output_dir name_prefix fs)
         = Inr (vocab, merges)"
proof -
  let ?fs = "save_vocab_and_merges byte_encoder vocab merges output_dir name_prefix fs"
  let ?kvs = "map (\<lambda>(k, v). (str_int k, JStr (bytes_hex v))) vocab"
  have "map fst ?kvs = map str_int (map fst vocab)" by (simp add: split_def)
  moreover have "distinct (map str_int (map fst vocab))"
    using assms(1) inj_on_subset [OF inj_str_int subset_UNIV] by (simp only: distinct_map)
  ultimately have dk: "distinct (map fst ?kvs)" by (simp only:)
  have raw: "json_load ?fs (path_join output_dir (name_prefix @ ascii ''vocab_raw.json'')) = Inr (JObj ?kvs)"
    by (simp add: json_load_def saved_vocab_raw_json json_of_int_dict_def
                  vocab_serializable_of_distinct [OF assms(1)] split_def)
  have v: "load_vocab_items (dict_of_object ?kvs) [] = Inr vocab"
    using load_vocab_items_saved [of "[]" vocab] assms(1) by (simp add: dict_of_object_distinct [OF dk])
  have ne: "\<And>m. m \<in> set merges \<Longrightarrow> fst m \<noteq> [] \<and> snd m \<noteq> []"
    using assms(2) by (metis prod.collapse)
  have m: "load_merges_lines (file_lines (raw_merges_txt_of merges)) [] = Inr merges"
    using load_merges_lines_saved [of merges "[]", OF ne]
    by (simp add: file_lines_raw_merges_txt)
  show ?thesis
    unfolding load_tokenizer_def raw by (simp add: v saved_merges_raw_txt m)
qed

theorem raw_files_round_trip_witness:
  "distinct (map fst [(0::int, [0::byte]), (256, [60, 124]), (257, [104, 101])])
   \<and> [104::byte] \<noteq> [] \<and> [101::byte] \<noteq> []
   \<and> load_tokenizer (ascii ''out'') (ascii ''t_'')
        (save_vocab_and_merges gpt2_bytes_to_unicode [(0, [0]), (256, [60, 124]), (257, [104, 101])]
           [([104], [101])] (ascii ''out'') (ascii ''t_'') Map.empty)
      = Inr ([(0, [0]), (256, [60, 124]), (257, [104, 101])], [([104], [101])])"
proof -
  have d: "distinct (map fst [(0::int, [0::byte]), (256, [60, 124]), (257, [104, 101])])" by simp
  have n: "\<And>token1 token2. (token1, token2) \<in> set [([104::byte], [101::byte])]
             \<Longrightarrow> token1 \<noteq> [] \<and> token2 \<noteq> []" by simp
  show ?thesis
    using raw_files_round_trip
            [where vocab = "[(0, [0]), (256, [60, 124]), (257, [104, 101])]"
               and merges = "[([104], [101])]" and output_dir = "ascii ''out''"
               and name_prefix = "ascii ''t_''" and byte_encoder = gpt2_bytes_to_unicode
               and fs = Map.empty, OF d n]
      d by simp
qed

text \<open>
  As stated for every merge list, claim C5 fails: the merge \<open>(b'', b'x')\<close> is written as the
  line \<open>" 78"\<close>, and \<open>load_tokenizer\<close> raises \<open>ValueError\<close> on it.
\<close>

theorem raw_files_round_trip_counterexample:
  "load_tokenizer (ascii ''out'') (ascii ''t_'')
     (save_vocab_and_merges gpt2_bytes_to_unicode [(0, [97])] [([], [120])]
        (ascii ''out'') (ascii ''t_'') Map.empty)
   = Inl ValueError
   \<and> load_tokenizer (ascii ''out'') (ascii ''t_'')
       (save_vocab_and_merges gpt2_bytes_to_unicode [(0, [97])] [([], [120])]
          (ascii ''out'') (ascii ''t_'') Map.empty)
     \<noteq> Inr ([(0, [97])], [([], [120])])"
proof -
  let ?fs = "save_vocab_and_merges gpt2_bytes_to_unicode [(0, [97])] [([], [120])]
               (ascii ''out'') (ascii ''t_'') Map.empty"
  have d: "distinct (map fst [(0::int, [97::byte])])" by simp
  have raw: "json_load ?fs (path_join (ascii ''out'') (ascii ''t_'' @ ascii ''vocab_raw.json''))
             = Inr (JObj [(str_int 0, JStr (bytes_hex [97]))])"
    by (simp add: json_load_def saved_vocab_raw_json json_of_int_dict_def
                  vocab_serializable_of_distinct [OF d])
  have v: "load_vocab_items (dict_of_object [(str_int 0, JStr (bytes_hex [97]))]) [] = Inr [(0, [97])]"
    by (simp add: dict_of_object_def py_int_str_int fromhex_bytes_hex)
  have hx: "bytes_hex [120] = [55, 56]" by (simp add: bytes_hex_def hex_byte_def hex_digit_def)
  have ln: "file_lines (raw_merges_txt_of [([], [120])]) = [[32, 55, 56, 10]]"
    by (simp add: raw_merges_txt_of_def file_lines_def ascii_def bytes_hex_def hex_byte_def hex_digit_def)
  have st: "py_strip [32, 55, 56, 10] = [55, 56]" by (simp add: py_strip_def isspace_def)
  have sp: "py_split [55, 56] = [[55, 56]]" by (simp add: py_split_def isspace_def)
  have m: "load_merges_lines [[32, 55, 56, 10]] [] = Inl ValueError"
    by (simp add: st sp)
  have "load_tokenizer (ascii ''out'') (ascii ''t_'') ?fs = Inl ValueError"
    unfolding load_tokenizer_def raw by (simp add: v saved_merges_raw_txt ln st sp)
  then show ?thesis by simp
qed

section \<open>\<open>fix_vocab_json\<close> against \<open>save_vocab_and_merges\<close>\<close>

lemma fix_vocab_items_saved:
  "distinct (map fst vocab) \<Longrightarrow> str_int ` fst ` set vocab \<inter> fst ` set acc = {} \<Longrightarrow>
   fix_vocab_items byte_encoder (map (\<lambda>(k, v). (str_int k, JStr (bytes_hex v))) vocab) acc
   = Inr (acc @ map (\<lambda>(k, v). (str_int k, token_str byte_encoder v)) vocab)"
proof (induction vocab arbitrary: acc)
  case Nil
  then show ?case by simp
next
  case (Cons kv vocab)
  obtain k v where kv: "kv = (k, v)" by (cases kv)
  have fresh: "str_int k \<notin> fst ` set acc" using Cons.prems(2) kv by auto
  have knot: "k \<notin> fst ` set vocab" using Cons.prems(1) kv by (simp add: image_iff)
  then have "str_int k \<notin> str_int ` fst ` set vocab" using inj_str_int by (auto dest: injD)
  then have disj: "str_int ` fst ` set vocab \<inter> fst ` set (acc @ [(str_int k, token_str byte_encoder v)]) = {}"
    using Cons.prems(2) by auto
  have d: "distinct (map fst vocab)" using Cons.prems(1) by simp
  have "fix_vocab_items byte_encoder (map (\<lambda>(k, v). (str_int k, JStr (bytes_hex v))) (kv # vocab)) acc
        = fix_vocab_items byte_encoder (map (\<lambda>(k, v). (str_int k, JStr (bytes_hex v))) vocab)
            (acc @ [(str_int k, token_str byte_encoder v)])"
    by (simp add: kv fromhex_bytes_hex dict_set_fresh [OF fresh])
  also have "\<dots> = Inr ((acc @ [(str_int k, token_str byte_encoder v)])
                         @ map (\<lambda>(k, v). (str_int k, token_str byte_encoder v)) vocab)"
    by (rule Cons.IH [OF d disj])
  finally show ?case by (simp add: kv)
qed

lemma int_keys_numerals: "int_keys (map str_int ks) = Inr ks"
  by (induction ks) (simp_all add: py_int_str_int)

lemma verify_ids_saved:
  "verify_ids (map (\<lambda>(k, v). (str_int k, token_str byte_encoder v)) vocab)
   = (if vocab = [] then Some ValueError else None)"
proof -
  have k: "map fst (map (\<lambda>(k, v). (str_int k, token_str byte_encoder v)) vocab) = map str_int (map fst vocab)"
    by (simp add: split_def)
  have "verify_ids (map (\<lambda>(k, v). (str_int k, token_str byte_encoder v)) vocab)
        = (if map fst vocab = [] then Some ValueError else None)"
    by (simp only: verify_ids_def k int_keys_numerals sum.case)
  then show ?thesis by simp
qed

text \<open>
  Claim C8. For every vocabulary, \<open>fix_vocab_json\<close> reconstructs from the raw hexadecimal
  vocabulary file the mapping that \<open>save_vocab_and_merges\<close> writes to \<open>vocab.json\<close>. On any
  file system whose raw vocabulary file is the one that \<open>save_vocab_and_merges\<close> wrote for
  the prefix \<open>name_prefix + "_"\<close>, whatever it holds at \<open>vocab.json\<close> and elsewhere,
  \<open>fix_vocab_json\<close> writes to \<open>vocab.json\<close> the object with the same keys (the decimal
  numerals of the token ids) and the same strings (the bytes mapped through the table) as the
  object \<open>save_vocab_and_merges\<close> wrote there, and changes nothing else. It returns normally,
  except for the empty vocabulary, where its closing check raises \<open>ValueError\<close> after the file
  has been written.
\<close>

theorem fix_vocab_json_rebuilds_vocab_json_from_raw:
  assumes "distinct (map fst vocab)"
      and "fs1 (path_join output_dir (name_prefix @ ascii ''_vocab_raw.json''))
           = save_vocab_and_merges byte_encoder vocab merges output_dir (name_prefix @ ascii ''_'') fs
               (path_join output_dir (name_prefix @ ascii ''_vocab_raw.json''))"
  shows "fix_vocab_json byte_encoder output_dir name_prefix fs1
         = (if vocab = [] then Some ValueError else None,
            fs1(path_join output_dir (name_prefix @ ascii ''_vocab.json'')
                  \<mapsto> Json (JObj (map (\<lambda>(token_id, token_bytes).
                                  (str_int token_id, JStr (token_str byte_encoder token_bytes))) vocab))))
       \<and> save_vocab_and_merges byte_encoder vocab merges output_dir (name_prefix @ ascii ''_'') fs
           (path_join output_dir (name_prefix @ ascii ''_vocab.json''))
         = Some (Json (JObj (map (\<lambda>(token_id, token_bytes).
                                    (str_int token_id, JStr (token_str byte_encoder token_bytes))) vocab)))"
proof -
  let ?fs = "save_vocab_and_merges byte_encoder vocab merges output_dir (name_prefix @ ascii ''_'') fs"
  let ?kvs = "map (\<lambda>(k, v). (str_int k, JStr (bytes_hex v))) vocab"
  let ?gpt2 = "map (\<lambda>(k, v). (str_int k, token_str byte_encoder v)) vocab"
  let ?obj = "JObj (map (\<lambda>(token_id, token_bytes).
                           (str_int token_id, JStr (token_str byte_encoder token_bytes))) vocab)"
  have p_raw: "name_prefix @ ascii ''_vocab_raw.json'' = (name_prefix @ ascii ''_'') @ ascii ''vocab_raw.json''"
    and p_voc: "name_prefix @ ascii ''_vocab.json'' = (name_prefix @ ascii ''_'') @ ascii ''vocab.json''"
    by (simp_all add: ascii_def)
  have "map fst ?kvs = map str_int (map fst vocab)" by (simp add: split_def)
  moreover have "distinct (map str_int (map fst vocab))"
    using assms(1) inj_on_subset [OF inj_str_int subset_UNIV] by (simp only: distinct_map)
  ultimately have dk: "distinct (map fst ?kvs)" by (simp only:)
  have sv_raw: "?fs (path_join output_dir (name_prefix @ ascii ''_vocab_raw.json''))
                = Some (Json (json_of_int_dict (vocab_serializable_of vocab)))"
    unfolding p_raw by (rule saved_vocab_raw_json)
  have raw: "json_load fs1 (path_join output_dir (name_prefix @ ascii ''_vocab_raw.json'')) = Inr (JObj ?kvs)"
    by (simp add: json_load_def assms(2) sv_raw json_of_int_dict_def
                  vocab_serializable_of_distinct [OF assms(1)] split_def)
  have items: "fix_vocab_items byte_encoder (dict_of_object ?kvs) [] = Inr ?gpt2"
    using fix_vocab_items_saved [OF assms(1), of "[]" byte_encoder]
    by (simp add: dict_of_object_distinct [OF dk])
  have obj: "json_of_str_dict ?gpt2 = ?obj" by (simp add: json_of_str_dict_def split_def)
  have sv_voc: "?fs (path_join output_dir (name_prefix @ ascii ''_vocab.json''))
                = Some (Json (json_of_str_dict (vocab_gpt2_of byte_encoder vocab)))"
    unfolding p_voc by (rule saved_vocab_json)
  have saved: "?fs (path_join output_dir (name_prefix @ ascii ''_vocab.json'')) = Some (Json ?obj)"
    by (simp add: sv_voc vocab_gpt2_of_distinct [OF assms(1)] json_of_str_dict_def split_def)
  have fixed: "fix_vocab_json byte_encoder output_dir name_prefix fs1
             = (if vocab = [] then Some ValueError else None,
                fs1(path_join output_dir (name_prefix @ ascii ''_vocab.json'') \<mapsto> Json ?obj))"
    unfolding fix_vocab_json_def raw
    by (simp only: json.case sum.case items obj Let_def verify_ids_saved)
  show ?thesis using fixed saved by (intro conjI)
qed

theorem fix_vocab_json_rebuilds_vocab_json_from_raw_witness:
  "distinct (map fst [(0::int, [0::byte]), (256, [32, 116])])
   \<and> ((save_vocab_and_merges gpt2_bytes_to_unicode [(0, [0]), (256, [32, 116])] []
          (ascii ''out'') (ascii ''tinystories'' @ ascii ''_'') Map.empty)
         (path_join (ascii ''out'') (ascii ''tinystories'' @ ascii ''_vocab.json'') \<mapsto> Text (ascii ''stale'')))
        (path_join (ascii ''out'') (ascii ''tinystories'' @ ascii ''_vocab_raw.json''))
      = save_vocab_and_merges gpt2_bytes_to_unicode [(0, [0]), (256, [32, 116])] []
          (ascii ''out'') (ascii ''tinystories'' @ ascii ''_'') Map.empty
          (path_join (ascii ''out'') (ascii ''tinystories'' @ ascii ''_vocab_raw.json''))
   \<and> fst (fix_vocab_json gpt2_bytes_to_unicode (ascii ''out'') (ascii ''tinystories'')
            ((save_vocab_and_merges gpt2_bytes_to_unicode [(0, [0]), (256, [32, 116])] []
                (ascii ''out'') (ascii ''tinystories'' @ ascii ''_'') Map.empty)
               (path_join (ascii ''out'') (ascii ''tinystories'' @ ascii ''_vocab.json'')
                  \<mapsto> Text (ascii ''stale'')))) = None
   \<and> snd (fix_vocab_json gpt2_bytes_to_unicode (ascii ''out'') (ascii ''tinystories'')
            ((save_vocab_and_merges gpt2_bytes_to_unicode [(0, [0]), (256, [32, 116])] []
                (ascii ''out'') (ascii ''tinystories'' @ ascii ''_'') Map.empty)
               (path_join (ascii ''out'') (ascii ''tinystories'' @ ascii ''_vocab.json'')
                  \<mapsto> Text (ascii ''stale''))))
        (path_join (ascii ''out'') (ascii ''tinystories'' @ ascii ''_vocab.json''))
      = Some (Json (JObj [(str_int 0, JStr [256]), (str_int 256, JStr [288, 116])]))"
proof -
  let ?vocab = "[(0::int, [0::byte]), (256, [32, 116])]"
  let ?saved = "save_vocab_and_merges gpt2_bytes_to_unicode ?vocab []
                  (ascii ''out'') (ascii ''tinystories'' @ ascii ''_'') Map.empty"
  let ?vp = "path_join (ascii ''out'') (ascii ''tinystories'' @ ascii ''_vocab.json'')"
  let ?rp = "path_join (ascii ''out'') (ascii ''tinystories'' @ ascii ''_vocab_raw.json'')"
  let ?fs1 = "?saved(?vp \<mapsto> Text (ascii ''stale''))"
  have d: "distinct (map fst ?vocab)" by simp
  have ne: "?rp \<noteq> ?vp" by (simp add: path_join_def ascii_def)
  have same: "?fs1 ?rp = ?saved ?rp" using ne by simp
  note th = fix_vocab_json_rebuilds_vocab_json_from_raw
              [where vocab = ?vocab and merges = "[]" and output_dir = "ascii ''out''"
                 and name_prefix = "ascii ''tinystories''" and byte_encoder = gpt2_bytes_to_unicode
                 and fs = Map.empty and ?fs1.0 = ?fs1, OF d same]
  from th have r: "fix_vocab_json gpt2_bytes_to_unicode (ascii ''out'') (ascii ''tinystories'') ?fs1
         = (if ?vocab = [] then Some ValueError else None,
            ?fs1(?vp \<mapsto> Json (JObj (map (\<lambda>(token_id, token_bytes).
                                  (str_int token_id, JStr (token_str gpt2_bytes_to_unicode token_bytes))) ?vocab))))"
    by (rule conjunct1)
  have f: "fst (fix_vocab_json gpt2_bytes_to_unicode (ascii ''out'') (ascii ''tinystories'') ?fs1) = None"
    unfolding r by simp
  have s: "snd (fix_vocab_json gpt2_bytes_to_unicode (ascii ''out'') (ascii ''tinystories'') ?fs1) ?vp
           = Some (Json (JObj [(str_int 0, JStr [256]), (str_int 256, JStr [288, 116])]))"
    unfolding r by (simp add: token_str_def gpt2_bytes_to_unicode_def)
  show ?thesis using d same f s by (intro conjI)
qed

section \<open>The vocabulary file\<close>

lemma inj_vocab_entry:
  "inj (\<lambda>(token_id, token_bytes). (str_int token_id, JStr (token_str gpt2_bytes_to_unicode token_bytes)))"
proof (rule injI)
  fix x y :: "int \<times> bytes"
  obtain i t where x: "x = (i, t)" by (cases x)
  obtain j u where y: "y = (j, u)" by (cases y)
  assume "(case x of (token_id, token_bytes) \<Rightarrow> (str_int token_id, JStr (token_str gpt2_bytes_to_unicode token_bytes)))
        = (case y of (token_id, token_bytes) \<Rightarrow> (str_int token_id, JStr (token_str gpt2_bytes_to_unicode token_bytes)))"
  then have k: "str_int i = str_int j" and v: "map gpt2_bytes_to_unicode t = map gpt2_bytes_to_unicode u"
    by (simp_all add: x y token_str_def)
  have "i = j" using k inj_str_int by (rule injD [rotated])
  moreover have "t = u" using v inj_mapI [OF inj_gpt2_bytes_to_unicode] by (rule injD [rotated])
  ultimately show "x = y" by (simp add: x y)
qed

text \<open>
  Claim C4. For every vocabulary, \<open>save_vocab_and_merges\<close> writes to \<open>vocab.json\<close> the object
  that maps the numeral of each token id to the string of the code points that the table
  gives for the bytes of the token. The table gives every byte value a code point between
  33 and 323 that is no control character (0 to 31, 127 to 159), no blank (32, 160) and not
  the soft hyphen (173), and gives different bytes different code points. So the file
  determines the vocabulary: two vocabularies written to the same object are equal.
\<close>

theorem vocab_json_is_lossless:
  assumes "distinct (map fst vocab)" and "distinct (map fst vocab')"
  shows "save_vocab_and_merges gpt2_bytes_to_unicode vocab merges output_dir name_prefix fs
           (path_join output_dir (name_prefix @ ascii ''vocab.json''))
         = Some (Json (JObj (map (\<lambda>(token_id, token_bytes).
                                    (str_int token_id, JStr (map gpt2_bytes_to_unicode token_bytes))) vocab)))
       \<and> (\<forall>b. 33 \<le> gpt2_bytes_to_unicode b \<and> gpt2_bytes_to_unicode b \<le> 323
               \<and> \<not> (127 \<le> gpt2_bytes_to_unicode b \<and> gpt2_bytes_to_unicode b \<le> 160)
               \<and> gpt2_bytes_to_unicode b \<noteq> 173)
       \<and> (\<forall>b b'. gpt2_bytes_to_unicode b = gpt2_bytes_to_unicode b' \<longrightarrow> b = b')
       \<and> (save_vocab_and_merges gpt2_bytes_to_unicode vocab merges output_dir name_prefix fs
             (path_join output_dir (name_prefix @ ascii ''vocab.json''))
           = save_vocab_and_merges gpt2_bytes_to_unicode vocab' merges' output_dir name_prefix fs'
               (path_join output_dir (name_prefix @ ascii ''vocab.json''))
           \<longrightarrow> vocab = vocab')"
proof -
  let ?f = "\<lambda>(token_id, token_bytes). (str_int token_id, JStr (token_str gpt2_bytes_to_unicode token_bytes))"
  have w: "\<And>vocab merges fs. distinct (map fst vocab) \<Longrightarrow>
        save_vocab_and_merges gpt2_bytes_to_unicode vocab merges output_dir name_prefix fs
           (path_join output_dir (name_prefix @ ascii ''vocab.json''))
        = Some (Json (JObj (map ?f vocab)))"
    by (simp add: saved_vocab_json vocab_gpt2_of_distinct json_of_str_dict_def split_def)
  have a: "save_vocab_and_merges gpt2_bytes_to_unicode vocab merges output_dir name_prefix fs
           (path_join output_dir (name_prefix @ ascii ''vocab.json''))
         = Some (Json (JObj (map (\<lambda>(token_id, token_bytes).
                                    (str_int token_id, JStr (map gpt2_bytes_to_unicode token_bytes))) vocab)))"
    using w [OF assms(1)] by (simp add: token_str_def)
  have b: "\<forall>b. 33 \<le> gpt2_bytes_to_unicode b \<and> gpt2_bytes_to_unicode b \<le> 323
               \<and> \<not> (127 \<le> gpt2_bytes_to_unicode b \<and> gpt2_bytes_to_unicode b \<le> 160)
               \<and> gpt2_bytes_to_unicode b \<noteq> 173"
    using gpt2_bytes_to_unicode_range by blast
  have c: "\<forall>b b'. gpt2_bytes_to_unicode b = gpt2_bytes_to_unicode b' \<longrightarrow> b = b'"
    using inj_gpt2_bytes_to_unicode by (auto dest: injD)
  have d: "save_vocab_and_merges gpt2_bytes_to_unicode vocab merges output_dir name_prefix fs
             (path_join output_dir (name_prefix @ ascii ''vocab.json''))
           = save_vocab_and_merges gpt2_bytes_to_unicode vocab' merges' output_dir name_prefix fs'
               (path_join output_dir (name_prefix @ ascii ''vocab.json''))
           \<longrightarrow> vocab = vocab'"
  proof
    assume "save_vocab_and_merges gpt2_bytes_to_unicode vocab merges output_dir name_prefix fs
             (path_join output_dir (name_prefix @ ascii ''vocab.json''))
           = save_vocab_and_merges gpt2_bytes_to_unicode vocab' merges' output_dir name_prefix fs'
               (path_join output_dir (name_prefix @ ascii ''vocab.json''))"
    then have "map ?f vocab = map ?f vocab'"
      by (simp only: w [OF assms(1)] w [OF assms(2)] option.inject stored_file.inject json.inject)
    then show "vocab = vocab'" using inj_vocab_entry by (simp only: inj_map_eq_map)
  qed
  show ?thesis using a b c d by (intro conjI)
qed

theorem vocab_json_is_lossless_witness:
  "distinct (map fst [(0::int, [0::byte]), (256, [32, 116])])
   \<and> save_vocab_and_merges gpt2_bytes_to_unicode [(0, [0]), (256, [32, 116])] [] (ascii ''out'') (ascii ''t_'') Map.empty
       (path_join (ascii ''out'') (ascii ''t_'' @ ascii ''vocab.json''))
     = Some (Json (JObj [(str_int 0, JStr [256]), (str_int 256, JStr [288, 116])]))
   \<and> save_vocab_and_merges gpt2_bytes_to_unicode [(0, [0]), (256, [32, 116])] [] (ascii ''out'') (ascii ''t_'') Map.empty
       (path_join (ascii ''out'') (ascii ''t_'' @ ascii ''vocab.json''))
     = save_vocab_and_merges gpt2_bytes_to_unicode [(0, [0]), (256, [32, 116])] [([32], [116])] (ascii ''out'') (ascii ''t_'') Map.empty
       (path_join (ascii ''out'') (ascii ''t_'' @ ascii ''vocab.json''))"
proof -
  have d: "distinct (map fst [(0::int, [0::byte]), (256, [32, 116])])" by simp
  have "save_vocab_and_merges gpt2_bytes_to_unicode [(0, [0]), (256, [32, 116])] [] (ascii ''out'') (ascii ''t_'') Map.empty
       (path_join (ascii ''out'') (ascii ''t_'' @ ascii ''vocab.json''))
     = Some (Json (JObj [(str_int 0, JStr [256]), (str_int 256, JStr [288, 116])]))"
    using vocab_json_is_lossless
            [where vocab = "[(0, [0]), (256, [32, 116])]" and vocab' = "[(0, [0]), (256, [32, 116])]"
               and merges = "[]" and output_dir = "ascii ''out''" and name_prefix = "ascii ''t_''"
               and fs = Map.empty, OF d d]
    by (simp add: gpt2_bytes_to_unicode_def)
  moreover have "save_vocab_and_merges gpt2_bytes_to_unicode [(0, [0]), (256, [32, 116])] [] (ascii ''out'') (ascii ''t_'') Map.empty
       (path_join (ascii ''out'') (ascii ''t_'' @ ascii ''vocab.json''))
     = save_vocab_and_merges gpt2_bytes_to_unicode [(0, [0]), (256, [32, 116])] [([32], [116])] (ascii ''out'') (ascii ''t_'') Map.empty
       (path_join (ascii ''out'') (ascii ''t_'' @ ascii ''vocab.json''))"
    by (simp only: saved_vocab_json)
  ultimately show ?thesis using d by (intro conjI)
qed

lemma max_key_len_is_longest:
  "max_key_len best vs \<in> set (best # vs)
   \<and> (\<forall>v \<in> set (best # vs). length v \<le> length (max_key_len best vs))"
proof (induction vs arbitrary: best)
  case Nil
  then show ?case by simp
next
  case (Cons v vs)
  show ?case
  proof (cases "length best < length v")
    case True
    then show ?thesis using Cons.IH [of v] by auto
  next
    case False
    then show ?thesis using Cons.IH [of best] by auto
  qed
qed

lemma analyze_vocab_nonempty:
  assumes "vocab \<noteq> []"
  shows "\<exists>t \<in> snd ` set vocab. (\<forall>v \<in> snd ` set vocab. length v \<le> length t)
            \<and> analyze_vocab vocab merges = Inr (utf8_decode t)"
proof -
  from assms obtain v vs where vs: "map snd vocab = v # vs" by (cases vocab) auto
  have s: "snd ` set vocab = set (v # vs)" using vs by (metis set_map)
  have "analyze_vocab vocab merges = Inr (utf8_decode (max_key_len v vs))"
    by (simp add: analyze_vocab_def vs)
  then show ?thesis using max_key_len_is_longest [of v vs] unfolding s by blast
qed

lemma analyze_vocab_result:
  assumes "analyze_vocab vocab merges = Inr decoded"
  shows "\<exists>t \<in> snd ` set vocab. (\<forall>v \<in> snd ` set vocab. length v \<le> length t) \<and> decoded = utf8_decode t"
proof -
  have "vocab \<noteq> []" using assms by (auto simp: analyze_vocab_def)
  from analyze_vocab_nonempty [OF this, of merges] show ?thesis using assms by auto
qed

section \<open>Training\<close>

subsection \<open>The selector and the state machine\<close>

lemma fold_greatest:
  fixes key :: "'a \<Rightarrow> 'b::linorder"
  shows "fold (\<lambda>q best. if key best < key q then q else best) ps p \<in> set (p # ps)
         \<and> (\<forall>q \<in> set (p # ps). key q \<le> key (fold (\<lambda>q best. if key best < key q then q else best) ps p))"
proof (induction ps arbitrary: p)
  case Nil
  then show ?case by simp
next
  case (Cons q ps)
  show ?case
  proof (cases "key p < key q")
    case True
    then show ?thesis using Cons.IH [of q] by (auto intro: order_trans less_imp_le)
  next
    case False
    then have "key q \<le> key p" by simp
    then show ?thesis using False Cons.IH [of p] by (auto intro: order_trans)
  qed
qed

lemma merge_selector_Some:
  assumes "merge_selector min_frequency segs = Some p"
  shows "selects min_frequency segs p"
proof -
  let ?key = "\<lambda>q. (pair_frequency segs q, q)"
  from assms obtain p0 ps where ip: "indexed_pairs segs = p0 # ps"
    by (cases "indexed_pairs segs") (auto simp: merge_selector_def)
  let ?best = "fold (\<lambda>q best. if ?key best < ?key q then q else best) ps p0"
  have p: "p = ?best" and fl: "min_frequency \<le> pair_frequency segs ?best"
    using assms by (auto simp: merge_selector_def ip Let_def split: if_splits)
  have "?best \<in> set (p0 # ps) \<and> (\<forall>q \<in> set (p0 # ps). ?key q \<le> ?key ?best)"
    by (rule fold_greatest [of ?key ps p0])
  then show ?thesis unfolding selects_def ip p using fl by blast
qed

lemma merge_selector_None:
  assumes "merge_selector min_frequency segs = None"
  shows "\<not> selects min_frequency segs p"
proof
  assume sel: "selects min_frequency segs p"
  let ?key = "\<lambda>q. (pair_frequency segs q, q)"
  from sel have pin: "p \<in> set (indexed_pairs segs)" and fl: "min_frequency \<le> pair_frequency segs p"
    by (simp_all add: selects_def)
  then obtain p0 ps where ip: "indexed_pairs segs = p0 # ps" by (cases "indexed_pairs segs") auto
  let ?best = "fold (\<lambda>q best. if ?key best < ?key q then q else best) ps p0"
  have low: "\<not> min_frequency \<le> pair_frequency segs ?best"
    using assms by (auto simp: merge_selector_def ip Let_def split: if_splits)
  have all: "\<forall>q \<in> set (p0 # ps). ?key q \<le> ?key ?best"
    using fold_greatest [of ?key ps p0] by blast
  have "p \<in> set (p0 # ps)" using pin ip by simp
  with all have "?key p \<le> ?key ?best" by (rule bspec)
  then have "pair_frequency segs p \<le> pair_frequency segs ?best"
    by (simp only: less_eq_prod_def fst_conv snd_conv) auto
  then show False using fl low by simp
qed

lemma selects_unique:
  assumes "selects min_frequency segs p" and "selects min_frequency segs q"
  shows "p = q"
proof -
  have "(pair_frequency segs q, q) \<le> (pair_frequency segs p, p)"
    using assms by (simp add: selects_def)
  moreover have "(pair_frequency segs p, p) \<le> (pair_frequency segs q, q)"
    using assms by (simp add: selects_def)
  ultimately have "(pair_frequency segs p, p) = (pair_frequency segs q, q)" by (rule antisym [rotated])
  then show ?thesis by simp
qed

lemma merging_step_deterministic:
  assumes "merging_step min_frequency vocab_size s t1" and "merging_step min_frequency vocab_size s t2"
  shows "t1 = t2"
  using assms by (auto elim!: merging_step.cases dest: selects_unique)

lemma done_state_no_step:
  assumes "done_state min_frequency vocab_size s"
  shows "\<not> merging_step min_frequency vocab_size s t"
  using assms by (auto simp: done_state_def elim!: merging_step.cases)

lemma training_run_deterministic:
  assumes "training_run min_frequency vocab_size s t1" and "training_run min_frequency vocab_size s t2"
  shows "t1 = t2"
  using assms
proof (induction arbitrary: t2 rule: training_run.induct)
  case (finished s)
  from finished.prems show ?case
  proof (cases rule: training_run.cases)
    case finished
    then show ?thesis by simp
  next
    case (merged s')
    then show ?thesis using done_state_no_step [OF finished.hyps] by blast
  qed
next
  case (merged s s' t)
  from merged.prems show ?case
  proof (cases rule: training_run.cases)
    case finished
    then show ?thesis using done_state_no_step merged.hyps(1) by blast
  next
    case (merged s'')
    then have "s'' = s'" using merging_step_deterministic merged.hyps(1) by blast
    then show ?thesis using merged merged.IH by blast
  qed
qed

lemma merging_is_training_run:
  "training_run min_frequency vocab_size s (merging min_frequency vocab_size s)"
proof (induction min_frequency vocab_size s rule: merging.induct)
  case (1 min_frequency vocab_size s)
  show ?case
  proof (cases "length (st_vocabulary s) < vocab_size")
    case False
    then have "done_state min_frequency vocab_size s" by (simp add: done_state_def)
    then show ?thesis using False by (subst merging.simps) (simp add: training_run.finished)
  next
    case True
    show ?thesis
    proof (cases "merge_selector min_frequency (st_segments s)")
      case None
      then have "done_state min_frequency vocab_size s"
        using merge_selector_None by (simp add: done_state_def)
      then show ?thesis using True None by (subst merging.simps) (simp add: training_run.finished)
    next
      case (Some p)
      have step: "merging_step min_frequency vocab_size s (incremental_updater p s)"
        using True merge_selector_Some [OF Some] by (rule merging_step.merge)
      have "training_run min_frequency vocab_size (incremental_updater p s)
              (merging min_frequency vocab_size (incremental_updater p s))"
        using "1.IH" [OF True Some] .
      then have "training_run min_frequency vocab_size s
              (merging min_frequency vocab_size (incremental_updater p s))"
        using step by (rule training_run.merged [rotated])
      then show ?thesis using True Some by (subst merging.simps) simp
    qed
  qed
qed

lemma initializing_sizes:
  "length (st_vocabulary (initializing pretokenize corpus special_tokens)) = 256 + length special_tokens"
  "st_merges (initializing pretokenize corpus special_tokens) = []"
  by (simp_all add: initializing_def)

lemma merging_step_sizes:
  assumes "merging_step min_frequency vocab_size s t"
  shows "length (st_vocabulary t) = length (st_vocabulary s) + 1"
    and "length (st_merges t) = length (st_merges s) + 1"
    and "length (st_vocabulary s) < vocab_size"
  using assms by (auto simp: incremental_updater_def elim!: merging_step.cases)

lemma reachable_sizes:
  assumes "(merging_step min_frequency vocab_size)\<^sup>*\<^sup>* s0 s"
      and "length (st_vocabulary s0) \<le> vocab_size"
  shows "length (st_vocabulary s) + length (st_merges s0) = length (st_vocabulary s0) + length (st_merges s)
         \<and> length (st_vocabulary s) \<le> vocab_size"
  using assms
proof (induction rule: rtranclp_induct)
  case base
  then show ?case by simp
next
  case (step s t)
  then show ?case using merging_step_sizes [OF step.hyps(2)] by simp
qed

lemma training_run_reaches:
  assumes "training_run min_frequency vocab_size s t"
  shows "(merging_step min_frequency vocab_size)\<^sup>*\<^sup>* s t"
  using assms
proof (induction rule: training_run.induct)
  case (finished s)
  then show ?case by simp
next
  case (merged s s' t)
  then show ?case by (meson converse_rtranclp_into_rtranclp)
qed

lemma length_vocab_dict: "length (vocab_dict vocabulary) = length vocabulary"
  by (simp add: vocab_dict_def)

lemma run_train_bpe_is_training:
  "bpe_training pretokenize min_frequency fs input_path vocab_size special_tokens
     (run_train_bpe pretokenize min_frequency fs input_path vocab_size special_tokens)"
proof (cases "vocab_size < 256 + int (length special_tokens)")
  case True
  then show ?thesis by (simp add: run_train_bpe_def bpe_training.configuration_error)
next
  case False
  then have ok: "256 + int (length special_tokens) \<le> vocab_size" by simp
  show ?thesis
  proof (cases "read_corpus fs input_path")
    case (Inl e)
    then show ?thesis using False ok by (simp add: run_train_bpe_def bpe_training.input_error)
  next
    case (Inr corpus)
    have "bpe_training pretokenize min_frequency fs input_path vocab_size special_tokens
            (Inr (vocab_dict (st_vocabulary (merging min_frequency (nat vocab_size)
                        (initializing pretokenize corpus (map utf8_encode special_tokens)))),
                  st_merges (merging min_frequency (nat vocab_size)
                        (initializing pretokenize corpus (map utf8_encode special_tokens)))))"
      using ok Inr merging_is_training_run by (rule bpe_training.trained)
    then show ?thesis using False Inr by (simp add: run_train_bpe_def Let_def)
  qed
qed

lemma bpe_training_deterministic:
  assumes "bpe_training pretokenize min_frequency fs input_path vocab_size special_tokens r1"
      and "bpe_training pretokenize min_frequency fs input_path vocab_size special_tokens r2"
  shows "r1 = r2"
  using assms
  by (auto elim!: bpe_training.cases dest: training_run_deterministic)

lemma trained_sizes:
  assumes "256 + int (length special_tokens) \<le> vocab_size"
      and "(merging_step min_frequency (nat vocab_size))\<^sup>*\<^sup>*
              (initializing pretokenize corpus (map utf8_encode special_tokens)) s"
  shows "int (length (st_vocabulary s)) = 256 + int (length special_tokens) + int (length (st_merges s))
         \<and> int (length (st_merges s)) \<le> vocab_size - 256 - int (length special_tokens)"
proof -
  let ?s0 = "initializing pretokenize corpus (map utf8_encode special_tokens)"
  have l0: "length (st_vocabulary ?s0) = 256 + length special_tokens" and m0: "st_merges ?s0 = []"
    by (simp_all add: initializing_sizes)
  have "length (st_vocabulary ?s0) \<le> nat vocab_size" using assms(1) l0 by simp
  from reachable_sizes [OF assms(2) this]
  have "length (st_vocabulary s) = 256 + length special_tokens + length (st_merges s)"
    and "length (st_vocabulary s) \<le> nat vocab_size"
    using l0 m0 by simp_all
  then show ?thesis using assms(1) by auto
qed


subsection \<open>The example run\<close>

lemma example_initial_state:
  "initializing whole_chunk (utf8_encode example_corpus) []
   = \<lparr> st_segments = [([[97], [97], [97], [98], [100], [97], [97], [97], [98], [97], [99]], 1)],
       st_vocabulary = map (\<lambda>n. [word_of_nat n]) [0..<256],
       st_merges = [] \<rparr>"
  by (simp add: initializing_def segmenter_def example_corpus_def utf8_encode_def utf8_encode_char_def
        ascii_def whole_chunk_def longest_special_def del: upt_rec_numeral)

lemma example_select_1:
  "merge_selector 1 [([[97], [97], [97], [98], [100], [97], [97], [97], [98], [97], [99]], 1)]
   = Some ([97], [97])"
  by (simp add: merge_selector_def indexed_pairs_def pair_frequency_def)

lemma example_select_2:
  "merge_selector 1 [([[97, 97], [97], [98], [100], [97, 97], [97], [98], [97], [99]], 1)]
   = Some ([97, 97], [97])"
  by (simp add: merge_selector_def indexed_pairs_def pair_frequency_def)

lemma example_select_3:
  "merge_selector 1 [([[97, 97, 97], [98], [100], [97, 97, 97], [98], [97], [99]], 1)]
   = Some ([97, 97, 97], [98])"
  by (simp add: merge_selector_def indexed_pairs_def pair_frequency_def)

lemma merging_continue:
  assumes "length (st_vocabulary s) < vocab_size"
      and "merge_selector min_frequency (st_segments s) = Some p"
  shows "merging min_frequency vocab_size s = merging min_frequency vocab_size (incremental_updater p s)"
  using assms by (subst merging.simps) simp

lemma merging_full:
  assumes "\<not> length (st_vocabulary s) < vocab_size"
  shows "merging min_frequency vocab_size s = s"
  using assms by (subst merging.simps) simp

lemma example_final_state:
  "merging 1 259 (initializing whole_chunk (utf8_encode example_corpus) [])
   = \<lparr> st_segments = [([[97, 97, 97, 98], [100], [97, 97, 97, 98], [97], [99]], 1)],
       st_vocabulary = map (\<lambda>n. [word_of_nat n]) [0..<256] @ [[97, 97], [97, 97, 97], [97, 97, 97, 98]],
       st_merges = [([97], [97]), ([97, 97], [97]), ([97, 97, 97], [98])] \<rparr>"
proof -
  let ?V = "map (\<lambda>n. [word_of_nat n :: byte]) [0..<256]"
  let ?s0 = "\<lparr> st_segments = [([[97], [97], [97], [98], [100], [97], [97], [97], [98], [97], [99]], 1)],
                st_vocabulary = ?V, st_merges = [] \<rparr>"
  let ?s1 = "\<lparr> st_segments = [([[97, 97], [97], [98], [100], [97, 97], [97], [98], [97], [99]], 1)],
                st_vocabulary = ?V @ [[97, 97]], st_merges = [([97], [97])] \<rparr>"
  let ?s2 = "\<lparr> st_segments = [([[97, 97, 97], [98], [100], [97, 97, 97], [98], [97], [99]], 1)],
                st_vocabulary = ?V @ [[97, 97], [97, 97, 97]],
                st_merges = [([97], [97]), ([97, 97], [97])] \<rparr>"
  let ?s3 = "\<lparr> st_segments = [([[97, 97, 97, 98], [100], [97, 97, 97, 98], [97], [99]], 1)],
                st_vocabulary = ?V @ [[97, 97], [97, 97, 97], [97, 97, 97, 98]],
                st_merges = [([97], [97]), ([97, 97], [97]), ([97, 97, 97], [98])] \<rparr>"
  have u1: "incremental_updater ([97], [97]) ?s0 = ?s1" by (simp add: incremental_updater_def del: upt_rec_numeral)
  have u2: "incremental_updater ([97, 97], [97]) ?s1 = ?s2" by (simp add: incremental_updater_def del: upt_rec_numeral)
  have u3: "incremental_updater ([97, 97, 97], [98]) ?s2 = ?s3" by (simp add: incremental_updater_def del: upt_rec_numeral)
  have l0: "length (st_vocabulary ?s0) < 259" by (simp del: upt_rec_numeral)
  have l1: "length (st_vocabulary ?s1) < 259" by (simp del: upt_rec_numeral)
  have l2: "length (st_vocabulary ?s2) < 259" by (simp del: upt_rec_numeral)
  have l3: "\<not> length (st_vocabulary ?s3) < 259" by (simp del: upt_rec_numeral)
  have c0: "merge_selector 1 (st_segments ?s0) = Some ([97], [97])"
    by (simp only: bpe_state.select_convs example_select_1)
  have c1: "merge_selector 1 (st_segments ?s1) = Some ([97, 97], [97])"
    by (simp only: bpe_state.select_convs example_select_2)
  have c2: "merge_selector 1 (st_segments ?s2) = Some ([97, 97, 97], [98])"
    by (simp only: bpe_state.select_convs example_select_3)
  have "merging 1 259 ?s0 = merging 1 259 ?s1" using merging_continue [OF l0 c0] by (simp only: u1)
  also have "\<dots> = merging 1 259 ?s2" using merging_continue [OF l1 c1] by (simp only: u2)
  also have "\<dots> = merging 1 259 ?s3" using merging_continue [OF l2 c2] by (simp only: u3)
  also have "\<dots> = ?s3" using l3 by (rule merging_full)
  finally show ?thesis by (simp only: example_initial_state)
qed

lemma example_run:
  "run_train_bpe whole_chunk 1 example_fs (ascii ''corpus.txt'') 259 []
   = Inr (vocab_dict (map (\<lambda>n. [word_of_nat n]) [0..<256] @ [[97, 97], [97, 97, 97], [97, 97, 97, 98]]),
          [([97], [97]), ([97, 97], [97]), ([97, 97, 97], [98])])"
proof -
  have c: "read_corpus example_fs (ascii ''corpus.txt'') = Inr (utf8_encode example_corpus)"
    by (simp add: read_corpus_def example_fs_def ascii_def)
  have n: "nat 259 = 259" by simp
  have cfg: "\<not> (259 :: int) < 256 + int (length ([] :: ustr list))" by simp
  show ?thesis
    by (simp only: run_train_bpe_def cfg if_False c sum.case n list.map example_final_state
                   Let_def bpe_state.select_convs)
qed


subsection \<open>Size of the vocabulary\<close>

text \<open>
  Claim C1. For every corpus, requested vocabulary size and list of special tokens: in every
  state that training reaches from the initial state by merge steps (the initial state
  included), the vocabulary has \<open>256 + len(special_tokens) + len(merges)\<close> entries and the
  number of merges is at most \<open>vocab_size - 256 - len(special_tokens)\<close>; and the vocabulary
  and the merges that \<open>run_train_bpe\<close> returns satisfy the same two relations.
\<close>

theorem vocabulary_size_invariant:
  "(256 + int (length special_tokens) \<le> vocab_size \<longrightarrow>
    (merging_step min_frequency (nat vocab_size))\<^sup>*\<^sup>*
       (initializing pretokenize corpus (map utf8_encode special_tokens)) s \<longrightarrow>
      int (length (st_vocabulary s)) = 256 + int (length special_tokens) + int (length (st_merges s))
      \<and> int (length (st_merges s)) \<le> vocab_size - 256 - int (length special_tokens))
   \<and> (run_train_bpe pretokenize min_frequency fs input_path vocab_size special_tokens = Inr (vocab, merges) \<longrightarrow>
      int (length vocab) = 256 + int (length special_tokens) + int (length merges)
      \<and> int (length merges) \<le> vocab_size - 256 - int (length special_tokens))"
proof (intro conjI impI)
  assume ok: "256 + int (length special_tokens) \<le> vocab_size"
    and r: "(merging_step min_frequency (nat vocab_size))\<^sup>*\<^sup>*
       (initializing pretokenize corpus (map utf8_encode special_tokens)) s"
  from trained_sizes [OF ok r]
  show "int (length (st_vocabulary s)) = 256 + int (length special_tokens) + int (length (st_merges s))"
    and "int (length (st_merges s)) \<le> vocab_size - 256 - int (length special_tokens)"
    by simp_all
next
  assume run: "run_train_bpe pretokenize min_frequency fs input_path vocab_size special_tokens = Inr (vocab, merges)"
  then have ok: "256 + int (length special_tokens) \<le> vocab_size"
    by (auto simp: run_train_bpe_def split: if_splits)
  from run obtain corpus where
    v: "vocab = vocab_dict (st_vocabulary (merging min_frequency (nat vocab_size)
                 (initializing pretokenize corpus (map utf8_encode special_tokens))))"
    and m: "merges = st_merges (merging min_frequency (nat vocab_size)
                 (initializing pretokenize corpus (map utf8_encode special_tokens)))"
    by (auto simp: run_train_bpe_def Let_def split: if_splits sum.splits)
  have "(merging_step min_frequency (nat vocab_size))\<^sup>*\<^sup>*
          (initializing pretokenize corpus (map utf8_encode special_tokens))
          (merging min_frequency (nat vocab_size)
             (initializing pretokenize corpus (map utf8_encode special_tokens)))"
    using merging_is_training_run by (rule training_run_reaches)
  from trained_sizes [OF ok this]
  show "int (length vocab) = 256 + int (length special_tokens) + int (length merges)"
    and "int (length merges) \<le> vocab_size - 256 - int (length special_tokens)"
    by (simp_all add: v m length_vocab_dict)
qed


theorem vocabulary_size_invariant_witness:
  "256 + int (length ([] :: ustr list)) \<le> 259
   \<and> (merging_step 1 (nat 259))\<^sup>*\<^sup>*
        (initializing whole_chunk (utf8_encode example_corpus) (map utf8_encode []))
        (merging 1 259 (initializing whole_chunk (utf8_encode example_corpus) []))
   \<and> length (st_vocabulary (merging 1 259 (initializing whole_chunk (utf8_encode example_corpus) []))) = 259
   \<and> st_merges (merging 1 259 (initializing whole_chunk (utf8_encode example_corpus) []))
       = [([97], [97]), ([97, 97], [97]), ([97, 97, 97], [98])]
   \<and> (\<exists>vocab merges.
         run_train_bpe whole_chunk 1 example_fs (ascii ''corpus.txt'') 259 [] = Inr (vocab, merges)
         \<and> int (length vocab) = 256 + int (length ([] :: ustr list)) + int (length merges)
         \<and> int (length merges) \<le> 259 - 256 - int (length ([] :: ustr list))
         \<and> length merges = 3)"
proof -
  let ?s0 = "initializing whole_chunk (utf8_encode example_corpus) []"
  let ?vocab = "vocab_dict (map (\<lambda>n. [word_of_nat n :: byte]) [0..<256] @ [[97, 97], [97, 97, 97], [97, 97, 97, 98]])"
  let ?merges = "[([97 :: byte], [97 :: byte]), ([97, 97], [97]), ([97, 97, 97], [98])]"
  have ok: "256 + int (length ([] :: ustr list)) \<le> 259" by simp
  have reach: "(merging_step 1 (nat 259))\<^sup>*\<^sup>* (initializing whole_chunk (utf8_encode example_corpus) (map utf8_encode [])) (merging 1 259 ?s0)"
    using training_run_reaches [OF merging_is_training_run, of 1 259 ?s0] by simp
  have inv: "int (length (st_vocabulary (merging 1 259 ?s0)))
             = 256 + int (length ([] :: ustr list)) + int (length (st_merges (merging 1 259 ?s0)))"
    using vocabulary_size_invariant
            [where special_tokens = "[]" and vocab_size = 259 and min_frequency = 1
               and pretokenize = whole_chunk and corpus = "utf8_encode example_corpus"
               and s = "merging 1 259 ?s0"]
          ok reach by blast
  have m: "st_merges (merging 1 259 ?s0) = ?merges" by (simp only: example_final_state bpe_state.select_convs)
  have len: "length (st_vocabulary (merging 1 259 ?s0)) = 259" using inv m by simp
  have run: "run_train_bpe whole_chunk 1 example_fs (ascii ''corpus.txt'') 259 [] = Inr (?vocab, ?merges)"
    by (rule example_run)
  have sizes: "int (length ?vocab) = 256 + int (length ([] :: ustr list)) + int (length ?merges)
        \<and> int (length ?merges) \<le> 259 - 256 - int (length ([] :: ustr list))"
    using vocabulary_size_invariant
            [where special_tokens = "[]" and vocab_size = 259 and min_frequency = 1
               and pretokenize = whole_chunk and fs = example_fs and input_path = "ascii ''corpus.txt''"
               and vocab = ?vocab and merges = ?merges]
          run by blast
  have "\<exists>vocab merges.
         run_train_bpe whole_chunk 1 example_fs (ascii ''corpus.txt'') 259 [] = Inr (vocab, merges)
         \<and> int (length vocab) = 256 + int (length ([] :: ustr list)) + int (length merges)
         \<and> int (length merges) \<le> 259 - 256 - int (length ([] :: ustr list))
         \<and> length merges = 3"
    using run sizes by (intro exI [of _ ?vocab] exI [of _ ?merges]) simp
  then show ?thesis using ok reach len m by (intro conjI)
qed


subsection \<open>Determinism\<close>

text \<open>
  Claim C2. Training is deterministic: any two runs that the specification allows on the same
  corpus file, vocabulary size and special tokens give the same result, vocabulary and
  ordered merge list alike (or the same error); it is the result that \<open>run_train_bpe\<close>
  computes. The selection rule leaves no choice, since the order on (frequency, pair) is
  linear.
\<close>

theorem training_is_deterministic:
  assumes "bpe_training pretokenize min_frequency fs input_path vocab_size special_tokens r1"
      and "bpe_training pretokenize min_frequency fs input_path vocab_size special_tokens r2"
  shows "r1 = r2
         \<and> r1 = run_train_bpe pretokenize min_frequency fs input_path vocab_size special_tokens"
  using assms run_train_bpe_is_training bpe_training_deterministic by metis

theorem training_is_deterministic_witness:
  "bpe_training whole_chunk 1 example_fs (ascii ''corpus.txt'') 259 []
     (run_train_bpe whole_chunk 1 example_fs (ascii ''corpus.txt'') 259 [])
   \<and> run_train_bpe whole_chunk 1 example_fs (ascii ''corpus.txt'') 259 []
     = Inr (vocab_dict (map (\<lambda>n. [word_of_nat n]) [0..<256] @ [[97, 97], [97, 97, 97], [97, 97, 97, 98]]),
            [([97], [97]), ([97, 97], [97]), ([97, 97, 97], [98])])"
proof -
  have h: "bpe_training whole_chunk 1 example_fs (ascii ''corpus.txt'') 259 []
             (run_train_bpe whole_chunk 1 example_fs (ascii ''corpus.txt'') 259 [])"
    by (rule run_train_bpe_is_training)
  from training_is_deterministic [OF h h] example_run h show ?thesis by (intro conjI)
qed

section \<open>\<open>train_bpe_tokenizer\<close>: failures\<close>

lemma train_missing_input:
  assumes "w_fs w input_path = None"
  shows "train_bpe_tokenizer env input_path vocab_size special_tokens output_dir dataset_name w
         = (Inl (SystemExit 1), w\<lparr>w_trace := w_trace w @ [Input_file_not_found input_path]\<rparr>)"
  using assms by (simp add: train_bpe_tokenizer_def log_event_def)

lemma train_run_train_bpe_raises:
  assumes "w_fs w input_path = Some f"
      and "env_run_train_bpe env (w_fs w) input_path vocab_size special_tokens = Inl e"
  shows "train_bpe_tokenizer env input_path vocab_size special_tokens output_dir dataset_name w
         = (Inl (SystemExit 1),
            w\<lparr>w_trace := w_trace w @ [Called_run_train_bpe input_path vocab_size special_tokens,
                                       Error_during_training e]\<rparr>)"
  using assms by (simp add: train_bpe_tokenizer_def log_event_def Let_def)


text \<open>
  Claim C7, amended. For every corpus path that is missing, \<open>train_bpe_tokenizer\<close> fails
  fatally before training starts: it exits with status 1, \<open>run_train_bpe\<close> is never invoked
  and no file is written. For a path that exists and cannot be read, \<open>run_train_bpe\<close> is
  invoked; when it raises, \<open>train_bpe_tokenizer\<close> exits with status 1 and no file is
  written.
\<close>

theorem missing_corpus_is_fatal_before_training:
  "(w_fs w input_path = None \<longrightarrow>
      train_bpe_tokenizer env input_path vocab_size special_tokens output_dir dataset_name w
      = (Inl (SystemExit 1), w\<lparr>w_trace := w_trace w @ [Input_file_not_found input_path]\<rparr>))
   \<and> (w_fs w input_path = Some Unreadable \<longrightarrow>
      env_run_train_bpe env (w_fs w) input_path vocab_size special_tokens = Inl e \<longrightarrow>
      train_bpe_tokenizer env input_path vocab_size special_tokens output_dir dataset_name w
      = (Inl (SystemExit 1),
         w\<lparr>w_trace := w_trace w @ [Called_run_train_bpe input_path vocab_size special_tokens,
                                    Error_during_training e]\<rparr>))"
  using train_missing_input train_run_train_bpe_raises by blast

theorem missing_corpus_is_fatal_before_training_witness:
  "w_fs \<lparr>w_fs = example_fs, w_trace = []\<rparr> (ascii ''missing.txt'') = None
   \<and> train_bpe_tokenizer (spec_environment whole_chunk 1 0 0) (ascii ''missing.txt'') 259 []
        (ascii ''out'') (ascii ''Example'') \<lparr>w_fs = example_fs, w_trace = []\<rparr>
     = (Inl (SystemExit 1),
        \<lparr>w_fs = example_fs, w_trace = [Input_file_not_found (ascii ''missing.txt'')]\<rparr>)
   \<and> w_fs \<lparr>w_fs = example_fs, w_trace = []\<rparr> (ascii ''locked.txt'') = Some Unreadable
   \<and> env_run_train_bpe (spec_environment whole_chunk 1 0 0) (w_fs \<lparr>w_fs = example_fs, w_trace = []\<rparr>)
        (ascii ''locked.txt'') 259 [] = Inl PermissionError
   \<and> train_bpe_tokenizer (spec_environment whole_chunk 1 0 0) (ascii ''locked.txt'') 259 []
        (ascii ''out'') (ascii ''Example'') \<lparr>w_fs = example_fs, w_trace = []\<rparr>
     = (Inl (SystemExit 1),
        \<lparr>w_fs = example_fs,
         w_trace = [Called_run_train_bpe (ascii ''locked.txt'') 259 [],
                    Error_during_training PermissionError]\<rparr>)"
proof -
  let ?w = "\<lparr>w_fs = example_fs, w_trace = []\<rparr>"
  let ?env = "spec_environment whole_chunk 1 0 0"
  have a: "w_fs ?w (ascii ''missing.txt'') = None" by (simp add: example_fs_def ascii_def)
  have b: "w_fs ?w (ascii ''locked.txt'') = Some Unreadable" by (simp add: example_fs_def ascii_def)
  have c: "env_run_train_bpe ?env (w_fs ?w) (ascii ''locked.txt'') 259 [] = Inl PermissionError"
    by (simp add: spec_environment_def run_train_bpe_def read_corpus_def example_fs_def ascii_def)
  have "train_bpe_tokenizer ?env (ascii ''missing.txt'') 259 [] (ascii ''out'') (ascii ''Example'') ?w
        = (Inl (SystemExit 1), ?w\<lparr>w_trace := w_trace ?w @ [Input_file_not_found (ascii ''missing.txt'')]\<rparr>)"
    using missing_corpus_is_fatal_before_training
            [where w = ?w and input_path = "ascii ''missing.txt''" and env = ?env
               and vocab_size = 259 and special_tokens = "[]" and output_dir = "ascii ''out''"
               and dataset_name = "ascii ''Example''"] a by blast
  moreover have "train_bpe_tokenizer ?env (ascii ''locked.txt'') 259 [] (ascii ''out'') (ascii ''Example'') ?w
        = (Inl (SystemExit 1),
           ?w\<lparr>w_trace := w_trace ?w @ [Called_run_train_bpe (ascii ''locked.txt'') 259 [],
                                       Error_during_training PermissionError]\<rparr>)"
    using missing_corpus_is_fatal_before_training
            [where w = ?w and input_path = "ascii ''locked.txt''" and env = ?env
               and vocab_size = 259 and special_tokens = "[]" and output_dir = "ascii ''out''"
               and dataset_name = "ascii ''Example''" and e = PermissionError] b c by blast
  ultimately show ?thesis using a b c by simp
qed

text \<open>
  As stated for unreadable paths, claim C7 fails: the function only checks that the path
  exists, so for a file that exists and cannot be read \<open>run_train_bpe\<close> is invoked.
\<close>

theorem unreadable_corpus_counterexample:
  "w_fs \<lparr>w_fs = example_fs, w_trace = []\<rparr> (ascii ''locked.txt'') = Some Unreadable
   \<and> Called_run_train_bpe (ascii ''locked.txt'') 259 []
       \<in> set (w_trace (snd (train_bpe_tokenizer (spec_environment whole_chunk 1 0 0)
                               (ascii ''locked.txt'') 259 [] (ascii ''out'') (ascii ''Example'')
                               \<lparr>w_fs = example_fs, w_trace = []\<rparr>)))"
proof -
  let ?w = "\<lparr>w_fs = example_fs, w_trace = []\<rparr>"
  let ?env = "spec_environment whole_chunk 1 0 0"
  have b: "w_fs ?w (ascii ''locked.txt'') = Some Unreadable" by (simp add: example_fs_def ascii_def)
  have c: "env_run_train_bpe ?env (w_fs ?w) (ascii ''locked.txt'') 259 [] = Inl PermissionError"
    by (simp add: spec_environment_def run_train_bpe_def read_corpus_def example_fs_def ascii_def)
  have t: "train_bpe_tokenizer ?env (ascii ''locked.txt'') 259 [] (ascii ''out'') (ascii ''Example'') ?w
        = (Inl (SystemExit 1),
           ?w\<lparr>w_trace := w_trace ?w @ [Called_run_train_bpe (ascii ''locked.txt'') 259 [],
                                       Error_during_training PermissionError]\<rparr>)"
    by (rule train_run_train_bpe_raises [OF b c])
  show ?thesis unfolding t using b by simp
qed

text \<open>
  Claim C6. When the requested vocabulary size is smaller than 256 plus the number of special
  tokens, \<open>train_bpe_tokenizer\<close> (with the \<open>run_train_bpe\<close> of the specification) exits with
  status 1 and writes no file. \<open>run_train_bpe\<close> raises the configuration error and no run of
  training exists: the only result the specification allows is that error. When the input
  file exists, the error reported is the configuration error.
\<close>

theorem small_vocab_size_is_a_configuration_error:
  assumes "vocab_size < 256 + int (length special_tokens)"
  shows "fst (train_bpe_tokenizer (spec_environment pretokenize min_frequency elapsed_time peak_memory)
                input_path vocab_size special_tokens output_dir dataset_name w) = Inl (SystemExit 1)
       \<and> w_fs (snd (train_bpe_tokenizer (spec_environment pretokenize min_frequency elapsed_time peak_memory)
                input_path vocab_size special_tokens output_dir dataset_name w)) = w_fs w
       \<and> run_train_bpe pretokenize min_frequency (w_fs w) input_path vocab_size special_tokens
           = Inl ConfigurationError
       \<and> (\<forall>r. bpe_training pretokenize min_frequency (w_fs w) input_path vocab_size special_tokens r
               \<longrightarrow> r = Inl ConfigurationError)
       \<and> (w_fs w input_path \<noteq> None \<longrightarrow>
            w_trace (snd (train_bpe_tokenizer (spec_environment pretokenize min_frequency elapsed_time peak_memory)
                input_path vocab_size special_tokens output_dir dataset_name w))
            = w_trace w @ [Called_run_train_bpe input_path vocab_size special_tokens,
                           Error_during_training ConfigurationError])"
proof -
  let ?env = "spec_environment pretokenize min_frequency elapsed_time peak_memory"
  let ?t = "train_bpe_tokenizer ?env input_path vocab_size special_tokens output_dir dataset_name w"
  have run: "run_train_bpe pretokenize min_frequency (w_fs w) input_path vocab_size special_tokens
             = Inl ConfigurationError"
    using assms by (simp add: run_train_bpe_def)
  have env: "env_run_train_bpe ?env (w_fs w) input_path vocab_size special_tokens = Inl ConfigurationError"
    using run by (simp add: spec_environment_def)
  have only: "\<forall>r. bpe_training pretokenize min_frequency (w_fs w) input_path vocab_size special_tokens r
               \<longrightarrow> r = Inl ConfigurationError"
    using assms by (auto elim!: bpe_training.cases)
  have res: "fst ?t = Inl (SystemExit 1) \<and> w_fs (snd ?t) = w_fs w
             \<and> (w_fs w input_path \<noteq> None \<longrightarrow>
                  w_trace (snd ?t) = w_trace w @ [Called_run_train_bpe input_path vocab_size special_tokens,
                                                 Error_during_training ConfigurationError])"
  proof (cases "w_fs w input_path")
    case None
    have "?t = (Inl (SystemExit 1), w\<lparr>w_trace := w_trace w @ [Input_file_not_found input_path]\<rparr>)"
      using None by (rule train_missing_input)
    then show ?thesis using None by simp
  next
    case (Some f)
    have "?t = (Inl (SystemExit 1),
                w\<lparr>w_trace := w_trace w @ [Called_run_train_bpe input_path vocab_size special_tokens,
                                           Error_during_training ConfigurationError]\<rparr>)"
      using Some env by (rule train_run_train_bpe_raises)
    then show ?thesis by simp
  qed
  from res have r1: "fst ?t = Inl (SystemExit 1)" and r2: "w_fs (snd ?t) = w_fs w"
    and r3: "w_fs w input_path \<noteq> None \<longrightarrow>
                  w_trace (snd ?t) = w_trace w @ [Called_run_train_bpe input_path vocab_size special_tokens,
                                                 Error_during_training ConfigurationError]"
    by (rule conjunct1, rule conjunct2 [THEN conjunct1], rule conjunct2 [THEN conjunct2])
  show ?thesis using r1 r2 run only r3 by (intro conjI)
qed

theorem small_vocab_size_is_a_configuration_error_witness:
  "(255 :: int) < 256 + int (length ([] :: ustr list))
   \<and> train_bpe_tokenizer (spec_environment whole_chunk 1 0 0) (ascii ''corpus.txt'') 255 []
        (ascii ''out'') (ascii ''Example'') \<lparr>w_fs = example_fs, w_trace = []\<rparr>
     = (Inl (SystemExit 1),
        \<lparr>w_fs = example_fs,
         w_trace = [Called_run_train_bpe (ascii ''corpus.txt'') 255 [],
                    Error_during_training ConfigurationError]\<rparr>)"
proof -
  let ?w = "\<lparr>w_fs = example_fs, w_trace = []\<rparr>"
  let ?t = "train_bpe_tokenizer (spec_environment whole_chunk 1 0 0) (ascii ''corpus.txt'') 255 []
              (ascii ''out'') (ascii ''Example'') ?w"
  have small: "(255 :: int) < 256 + int (length ([] :: ustr list))" by simp
  have ex: "w_fs ?w (ascii ''corpus.txt'') \<noteq> None" by (simp add: example_fs_def ascii_def)
  note th = small_vocab_size_is_a_configuration_error
         [OF small, where pretokenize = whole_chunk and min_frequency = 1 and elapsed_time = 0
            and peak_memory = 0 and input_path = "ascii ''corpus.txt''" and output_dir = "ascii ''out''"
            and dataset_name = "ascii ''Example''" and w = ?w]
  from th have f: "fst ?t = Inl (SystemExit 1)" by (rule conjunct1)
  from th have s: "w_fs (snd ?t) = w_fs ?w" by (rule conjunct2 [THEN conjunct1])
  from th have "w_fs ?w (ascii ''corpus.txt'') \<noteq> None \<longrightarrow>
      w_trace (snd ?t) = w_trace ?w @ [Called_run_train_bpe (ascii ''corpus.txt'') 255 [],
                           Error_during_training ConfigurationError]"
    by (rule conjunct2 [THEN conjunct2, THEN conjunct2, THEN conjunct2])
  from this ex have tr: "w_trace (snd ?t) = w_trace ?w @ [Called_run_train_bpe (ascii ''corpus.txt'') 255 [],
                           Error_during_training ConfigurationError]"
    by (rule mp)
  have "snd ?t = \<lparr>w_fs = example_fs,
         w_trace = [Called_run_train_bpe (ascii ''corpus.txt'') 255 [],
                    Error_during_training ConfigurationError]\<rparr>"
    using s tr by (cases "snd ?t") simp
  then have "?t = (Inl (SystemExit 1),
        \<lparr>w_fs = example_fs,
         w_trace = [Called_run_train_bpe (ascii ''corpus.txt'') 255 [],
                    Error_during_training ConfigurationError]\<rparr>)"
    using f by (cases ?t) simp
  then show ?thesis using small by (intro conjI)
qed


section \<open>The longest token\<close>









end
